theory Spec2Isabelle
  imports Complex_Main "HOL-Library.AList"
begin

section \<open>Tracking identifiers\<close>

subsection \<open>The regular expressions of the tracking server\<close>

text \<open>
  The server uses two compiled patterns, both applied with \<^verbatim>\<open>re.match\<close>:
  \<^verbatim>\<open>^[a-zA-Z0-9]+_[a-zA-Z0-9]+$\<close> for tracking ids and \<^verbatim>\<open>^[a-zA-Z0-9]+$\<close> for
  campaign ids. A pattern is a sequence of items: one character of a class, one or more
  characters of a class (\<^verbatim>\<open>+\<close>), and the end anchor \<^verbatim>\<open>$\<close>. \<^verbatim>\<open>re.match\<close> anchors the
  match at the start of the string, where the leading \<^verbatim>\<open>^\<close> always holds, and asks only
  for a matching prefix. Without the MULTILINE flag, \<^verbatim>\<open>$\<close> holds at the end of the
  string and just before a newline that is the last character of the string.
\<close>

datatype item = One "char \<Rightarrow> bool" | Many1 "char \<Rightarrow> bool" | Dollar

fun re_match :: "item list \<Rightarrow> string \<Rightarrow> bool" where
  "re_match [] s = True"
| "re_match (One p # r) [] = False"
| "re_match (One p # r) (c # cs) = (p c \<and> re_match r cs)"
| "re_match (Many1 p # r) [] = False"
| "re_match (Many1 p # r) (c # cs) = (p c \<and> (re_match (Many1 p # r) cs \<or> re_match r cs))"
| "re_match (Dollar # r) s = ((s = [] \<or> s = [CHR 0x0A]) \<and> re_match r s)"

text \<open>The class \<^verbatim>\<open>[a-zA-Z0-9]\<close>, by character code.\<close>

definition alnum :: "char \<Rightarrow> bool" where
  "alnum c = (let n = (of_char c :: nat) in
     (97 \<le> n \<and> n \<le> 122) \<or> (65 \<le> n \<and> n \<le> 90) \<or> (48 \<le> n \<and> n \<le> 57))"

definition underscore :: "char \<Rightarrow> bool" where
  "underscore c = (c = CHR ''_'')"

definition VALID_TRACKING_ID_PATTERN :: "item list" where
  "VALID_TRACKING_ID_PATTERN = [Many1 alnum, One underscore, Many1 alnum, Dollar]"

definition is_valid_tracking_id :: "string \<Rightarrow> bool" where
  "is_valid_tracking_id tracking_id = re_match VALID_TRACKING_ID_PATTERN tracking_id"

text \<open>The check at the head of \<^verbatim>\<open>campaign_stats\<close>: \<^verbatim>\<open>re.match(r'^[a-zA-Z0-9]+$', campaign_id)\<close>.\<close>

definition is_valid_campaign_id :: "string \<Rightarrow> bool" where
  "is_valid_campaign_id campaign_id = re_match [Many1 alnum, Dollar] campaign_id"

subsection \<open>Generation and routing\<close>

text \<open>
  \<^verbatim>\<open>_generate_tracking_id\<close> returns \<^verbatim>\<open>f"{self.campaign_id}_{lead_id}_{uuid.uuid4().hex[:8]}"\<close>.
  The random suffix is an argument of the model.
\<close>

definition generate_tracking_id :: "string \<Rightarrow> string \<Rightarrow> string \<Rightarrow> string" where
  "generate_tracking_id campaign_id lead_id nonce =
     campaign_id @ ''_'' @ lead_id @ ''_'' @ nonce"

text \<open>Python's \<^verbatim>\<open>str.split\<close> with a one-character separator: never an empty list.\<close>

fun split_on :: "char \<Rightarrow> string \<Rightarrow> string list" where
  "split_on sep [] = [[]]"
| "split_on sep (c # cs) =
     (if c = sep then [] # split_on sep cs
      else (case split_on sep cs of [] \<Rightarrow> [[c]] | w # ws \<Rightarrow> (c # w) # ws))"

datatype py_error =
  IndexError | KeyError | TypeError | AttributeError | JSONDecodeError
  | FileNotFoundError | OSError | ZeroDivisionError | ValueError | OverflowError

text \<open>
  The first statement of \<^verbatim>\<open>update_tracking_data\<close>:
  \<^verbatim>\<open>campaign_id = tracking_id.split('_')[0]\<close>, with the \<^verbatim>\<open>IndexError\<close> of an empty list.
\<close>

definition parse_campaign_id :: "string \<Rightarrow> py_error + string" where
  "parse_campaign_id tracking_id =
     (case split_on CHR ''_'' tracking_id of [] \<Rightarrow> Inl IndexError | seg # _ \<Rightarrow> Inr seg)"

section \<open>The campaign store\<close>

subsection \<open>JSON values\<close>

text \<open>
  What \<^verbatim>\<open>json.load\<close> returns. A Python dict keeps its keys in insertion order and has
  each key once: it is an association list, read with \<^const>\<open>map_of\<close> and written with
  \<^const>\<open>AList.update\<close>, which replaces the value of a present key in place and appends an
  absent key at the end. Numbers are rationals.
\<close>

datatype json =
  JNull | JBool bool | JNum rat | JStr string | JList "json list"
  | JDict "(string \<times> json) list"

text \<open>Python truth value of a JSON value, as \<^verbatim>\<open>if\<close> tests it.\<close>

fun truthy :: "json \<Rightarrow> bool" where
  "truthy JNull = False"
| "truthy (JBool b) = b"
| "truthy (JNum n) = (n \<noteq> 0)"
| "truthy (JStr s) = (s \<noteq> [])"
| "truthy (JList l) = (l \<noteq> [])"
| "truthy (JDict d) = (d \<noteq> [])"

definition json_of_opt :: "string option \<Rightarrow> json" where
  "json_of_opt v = (case v of None \<Rightarrow> JNull | Some s \<Rightarrow> JStr s)"

subsection \<open>Server state\<close>

text \<open>
  A file of the data directory holds text that \<^verbatim>\<open>json.load\<close> parses, or text on which
  it raises, or it exists and \<^verbatim>\<open>open\<close> refuses to read it.
\<close>

datatype content = Parsed json | Unparseable | Unreadable

text \<open>
  What the operating system does when the server opens a path with mode \<^verbatim>\<open>'w'\<close> and
  dumps JSON to it: the write goes through; or \<^verbatim>\<open>open\<close> raises (the name is too long,
  the directory is missing, permission is denied) and nothing changes; or \<^verbatim>\<open>open\<close>
  succeeds, which empties the file, and the dump or the close raises (the disk is
  full), which leaves a file that does not parse. The outcome is a field of the server
  state, which no request changes.
\<close>

datatype write_outcome = Written | Refused | Torn

datatype level = INFO | WARNING | ERROR

text \<open>
  The server state is the files by path, the outcome of a write by path, whether
  \<^verbatim>\<open>pixel.png\<close> exists, and the lines given to the logger. A line is its level, the
  text of the message and, when the message ends with the text of an exception, that
  exception.
\<close>

record server =
  files :: "string \<Rightarrow> content option"
  disk :: "string \<Rightarrow> write_outcome"
  pixel_present :: bool
  log_lines :: "(level \<times> string \<times> py_error option) list"

definition logged :: "level \<Rightarrow> string \<Rightarrow> server \<Rightarrow> server" where
  "logged lv msg st = st\<lparr>log_lines := log_lines st @ [(lv, msg, None)]\<rparr>"

definition logged_exc :: "level \<Rightarrow> string \<Rightarrow> py_error \<Rightarrow> server \<Rightarrow> server" where
  "logged_exc lv msg e st = st\<lparr>log_lines := log_lines st @ [(lv, msg, Some e)]\<rparr>"

definition TRACKING_DATA_DIR :: string where
  "TRACKING_DATA_DIR = ''tracking_data''"

definition DEFAULT_REDIRECT_URL :: string where
  "DEFAULT_REDIRECT_URL = ''https://www.example.com''"

definition PIXEL_FILE :: string where
  "PIXEL_FILE = ''pixel.png''"

text \<open>\<^verbatim>\<open>os.path.join(TRACKING_DATA_DIR, f'campaign_data_{campaign_id}.json')\<close>\<close>

definition data_file_of :: "string \<Rightarrow> string" where
  "data_file_of campaign_id =
     TRACKING_DATA_DIR @ ''/'' @ ''campaign_data_'' @ campaign_id @ ''.json''"

text \<open>How an f-string prints a value that may be \<^verbatim>\<open>None\<close>.\<close>

definition py_str :: "string option \<Rightarrow> string" where
  "py_str v = (case v of None \<Rightarrow> ''None'' | Some s \<Rightarrow> s)"

subsection \<open>Merging one event: the body of \<^verbatim>\<open>update_tracking_data\<close> under the lock\<close>

definition shell_entry :: "string \<Rightarrow> json" where
  "shell_entry current_time =
     JDict [(''first_seen'', JStr current_time), (''events'', JList [])]"

definition event_data :: "string \<Rightarrow> string \<Rightarrow> string option \<Rightarrow> string option
    \<Rightarrow> string option \<Rightarrow> json" where
  "event_data action current_time ip user_agent url =
     JDict ([(''action'', JStr action), (''timestamp'', JStr current_time),
             (''ip'', json_of_opt ip), (''user_agent'', json_of_opt user_agent)]
            @ (case url of
                 None \<Rightarrow> []
               | Some u \<Rightarrow> if action = ''clicked'' \<and> u \<noteq> [] then [(''url'', JStr u)] else []))"

text \<open>
  The statements between \<^verbatim>\<open>json.load\<close> and \<^verbatim>\<open>json.dump\<close>. Every subscript, membership
  test and \<^verbatim>\<open>append\<close> that Python refuses on the loaded value is a branch: a top-level
  value that is no dict and an entry that is no dict raise \<^verbatim>\<open>TypeError\<close>, an entry
  without \<^verbatim>\<open>events\<close> raises \<^verbatim>\<open>KeyError\<close>, an \<^verbatim>\<open>events\<close> value that is no list raises
  \<^verbatim>\<open>AttributeError\<close>.
\<close>

definition merge_event :: "json \<Rightarrow> string \<Rightarrow> string \<Rightarrow> string \<Rightarrow> string option
    \<Rightarrow> string option \<Rightarrow> string option \<Rightarrow> py_error + json" where
  "merge_event tracking_data tracking_id action current_time ip user_agent url =
     (case tracking_data of
        JDict d \<Rightarrow>
          (let d1 = (if map_of d tracking_id = None
                     then AList.update tracking_id (shell_entry current_time) d else d)
           in case map_of d1 tracking_id of
                None \<Rightarrow> Inl KeyError
              | Some (JDict e) \<Rightarrow>
                  (case map_of e ''events'' of
                     None \<Rightarrow> Inl KeyError
                   | Some (JList evs) \<Rightarrow>
                       (let e1 = AList.update ''events''
                                   (JList (evs @ [event_data action current_time ip user_agent url])) e;
                            e2 = AList.update action (JBool True) e1;
                            e3 = AList.update ''last_activity'' (JStr current_time) e2
                        in Inr (JDict (AList.update tracking_id (JDict e3) d1)))
                   | Some _ \<Rightarrow> Inl AttributeError)
              | Some _ \<Rightarrow> Inl TypeError)
      | _ \<Rightarrow> Inl TypeError)"

text \<open>
  \<^verbatim>\<open>with open(path, 'r') as f: json.load(f)\<close> and
  \<^verbatim>\<open>with open(path, 'w') as f: json.dump(data, f)\<close>. The dump returns the exception, if
  any, together with the state it leaves.
\<close>

definition load_file :: "(string \<Rightarrow> content option) \<Rightarrow> string \<Rightarrow> py_error + json" where
  "load_file fs path =
     (case fs path of
        None \<Rightarrow> Inl FileNotFoundError
      | Some Unparseable \<Rightarrow> Inl JSONDecodeError
      | Some Unreadable \<Rightarrow> Inl OSError
      | Some (Parsed j) \<Rightarrow> Inr j)"

definition dump_json :: "string \<Rightarrow> json \<Rightarrow> server \<Rightarrow> py_error option \<times> server" where
  "dump_json path data st =
     (case disk st path of
        Written \<Rightarrow> (None, st\<lparr>files := (files st)(path \<mapsto> Parsed data)\<rparr>)
      | Refused \<Rightarrow> (Some OSError, st)
      | Torn \<Rightarrow> (Some OSError, st\<lparr>files := (files st)(path \<mapsto> Unparseable)\<rparr>))"

text \<open>
  \<^verbatim>\<open>update_tracking_data\<close>: the campaign id is the first segment of the tracking id; the
  file is created with \<^verbatim>\<open>{}\<close> when absent, loaded, merged and written back. Any
  exception of the body, of the operating system as well as of the merge, is caught by
  \<^verbatim>\<open>except Exception\<close>, logged, and the function returns normally. The clock reading
  \<^verbatim>\<open>datetime.now().isoformat()\<close> is an argument.
\<close>

definition update_tracking_data :: "string \<Rightarrow> string \<Rightarrow> string option \<Rightarrow> string option
    \<Rightarrow> string option \<Rightarrow> string \<Rightarrow> server \<Rightarrow> server" where
  "update_tracking_data tracking_id action ip user_agent url current_time st =
     (case parse_campaign_id tracking_id of
        Inl _ \<Rightarrow> logged ERROR (''Invalid tracking ID format: '' @ tracking_id) st
      | Inr campaign_id \<Rightarrow>
          (let data_file = data_file_of campaign_id;
               failed = logged_exc ERROR (''Error updating tracking data for '' @ tracking_id
                                          @ '': '')
           in case (if files st data_file = None then dump_json data_file (JDict []) st
                    else (None, st)) of
                (Some e, st1) \<Rightarrow> failed e st1
              | (None, st1) \<Rightarrow>
                  (case load_file (files st1) data_file of
                     Inl e \<Rightarrow> failed e st1
                   | Inr tracking_data \<Rightarrow>
                       (case merge_event tracking_data tracking_id action current_time ip
                               user_agent url of
                          Inl e \<Rightarrow> failed e st1
                        | Inr tracking_data' \<Rightarrow>
                            (case dump_json data_file tracking_data' st1 of
                               (Some e, st2) \<Rightarrow> failed e st2
                             | (None, st2) \<Rightarrow>
                                 logged INFO (''Updated tracking data for '' @ tracking_id
                                              @ '': '' @ action) st2)))))"

section \<open>The HTTP endpoints\<close>

text \<open>
  What a handler reads from the request besides the path parameter: the peer address
  (which may be \<^verbatim>\<open>None\<close>), the \<^verbatim>\<open>User-Agent\<close> header, the \<^verbatim>\<open>url\<close> query argument, and
  the clock at the time of the call.
\<close>

record request =
  remote_addr :: "string option"
  user_agent_header :: "string option"
  url_arg :: "string option"
  now :: string

record stats =
  campaign_id :: string
  total_recipients :: nat
  total_opens :: nat
  total_clicks :: nat
  open_rate :: rat
  click_rate :: rat
  click_to_open_rate :: rat

text \<open>
  A response: the pixel file (200), a redirect (302), \<^verbatim>\<open>abort(code)\<close> (which the
  registered error handlers turn into a JSON body with the same code), the statistics
  (200), a JSON error body returned with a code, or an exception that leaves the
  handler, which Flask answers with 500.
\<close>

datatype response =
  SendFile string | Redirect string | Abort nat | JsonStats stats | JsonError nat string
  | Unhandled py_error

fun status_code :: "response \<Rightarrow> nat" where
  "status_code (SendFile f) = 200"
| "status_code (Redirect u) = 302"
| "status_code (Abort c) = c"
| "status_code (JsonStats s) = 200"
| "status_code (JsonError c m) = c"
| "status_code (Unhandled e) = 500"

definition header_or_unknown :: "request \<Rightarrow> string" where
  "header_or_unknown req = (case user_agent_header req of None \<Rightarrow> ''Unknown'' | Some a \<Rightarrow> a)"

definition track_open :: "string \<Rightarrow> request \<Rightarrow> server \<Rightarrow> response \<times> server" where
  "track_open tracking_id req st =
     (if \<not> is_valid_tracking_id tracking_id then
        (Abort 400, logged WARNING (''Invalid tracking ID format: '' @ tracking_id) st)
      else
        (let client_ip = remote_addr req;
             user_agent = header_or_unknown req;
             st1 = logged INFO (''Email opened: '' @ tracking_id @ '' | IP: '' @ py_str client_ip
                                @ '' | Agent: '' @ user_agent) st;
             st2 = update_tracking_data tracking_id ''opened'' client_ip (Some user_agent) None
                     (now req) st1
         in if pixel_present st2 then (SendFile PIXEL_FILE, st2)
            else (Abort 500, logged ERROR (''Tracking pixel not found: '' @ PIXEL_FILE) st2)))"

text \<open>
  \<^verbatim>\<open>is_valid_url\<close> calls \<^verbatim>\<open>urllib.parse.urlparse\<close> of the standard library, which is an
  argument of the model: it returns the scheme and the network location of the URL,
  or raises. The bare \<^verbatim>\<open>except\<close> turns a raise into \<^verbatim>\<open>False\<close>. The handler ends with
  \<^verbatim>\<open>redirect(url)\<close> of the web framework, the other library argument of the model: it
  returns the \<^verbatim>\<open>Location\<close> of a 302 response, or raises (as it does on a URL with a
  line break), and nothing in the handler catches that.
\<close>

record parse_result =
  scheme :: string
  netloc :: string

definition is_valid_url :: "(string \<Rightarrow> py_error + parse_result) \<Rightarrow> string \<Rightarrow> bool" where
  "is_valid_url urlparse url =
     (case urlparse url of
        Inl _ \<Rightarrow> False
      | Inr result \<Rightarrow> scheme result \<in> set [''http'', ''https''] \<and> netloc result \<noteq> [])"

definition track_click :: "(string \<Rightarrow> py_error + parse_result)
    \<Rightarrow> (string \<Rightarrow> py_error + string) \<Rightarrow> string \<Rightarrow> request
    \<Rightarrow> server \<Rightarrow> response \<times> server" where
  "track_click urlparse redirect tracking_id req st =
     (if \<not> is_valid_tracking_id tracking_id then
        (Abort 400, logged WARNING (''Invalid tracking ID format: '' @ tracking_id) st)
      else
        (let url0 = (case url_arg req of None \<Rightarrow> DEFAULT_REDIRECT_URL | Some u \<Rightarrow> u);
             valid = is_valid_url urlparse url0;
             st0 = (if \<not> valid then logged WARNING (''Invalid URL in click request: '' @ url0) st
                    else st);
             url = (if \<not> valid then DEFAULT_REDIRECT_URL else url0);
             client_ip = remote_addr req;
             user_agent = header_or_unknown req;
             st1 = logged INFO (''Link clicked: '' @ tracking_id @ '' | Redirect: '' @ url
                                @ '' | IP: '' @ py_str client_ip @ '' | Agent: '' @ user_agent) st0;
             st2 = update_tracking_data tracking_id ''clicked'' client_ip (Some user_agent)
                     (Some url) (now req) st1
         in case redirect url of
              Inl e \<Rightarrow> (Unhandled e, st2)
            | Inr location \<Rightarrow> (Redirect location, st2)))"

subsection \<open>Statistics\<close>

text \<open>
  \<^verbatim>\<open>data.get(key, False)\<close> as a condition: \<^verbatim>\<open>AttributeError\<close> when the entry is no dict,
  the default \<^verbatim>\<open>False\<close> when the key is absent, the truth value of the stored value
  otherwise.
\<close>

definition get_flag :: "string \<Rightarrow> json \<Rightarrow> py_error + bool" where
  "get_flag key data =
     (case data of
        JDict e \<Rightarrow> Inr (case map_of e key of None \<Rightarrow> False | Some v \<Rightarrow> truthy v)
      | _ \<Rightarrow> Inl AttributeError)"

text \<open>\<^verbatim>\<open>sum(1 for data in tracking_data.values() if data.get(key, False))\<close>\<close>

fun count_flag :: "string \<Rightarrow> json list \<Rightarrow> py_error + nat" where
  "count_flag key [] = Inr 0"
| "count_flag key (data # rest) =
     (case get_flag key data of
        Inl e \<Rightarrow> Inl e
      | Inr b \<Rightarrow>
          (case count_flag key rest of
             Inl e \<Rightarrow> Inl e
           | Inr n \<Rightarrow> Inr (if b then Suc n else n)))"

text \<open>
  The rates are Python floats, that is binary64 numbers: a float is \<open>m * 2 ^ k\<close> with a
  significand \<open>m\<close> below \<open>2 ^ 53\<close>, and every operation returns the float nearest to
  its exact result, a tie going to the even significand. The exponent is not bounded
  here: the model is binary64 wherever no value is subnormal or beyond the largest
  double, which holds for the rates of every store that fits a process (a container
  has fewer than \<open>2 ^ 63\<close> elements).
\<close>

datatype double = Double nat int

fun value_of :: "double \<Rightarrow> rat" where
  "value_of (Double m k) = of_nat m * 2 powi k"

text \<open>The number of binary digits of a natural number.\<close>

fun bit_length :: "nat \<Rightarrow> nat" where
  "bit_length n = (if n = 0 then 0 else Suc (bit_length (n div 2)))"

declare bit_length.simps [simp del]

text \<open>The integer nearest to \<open>n / d\<close>, a tie going to the even one.\<close>

definition nearest_quotient :: "nat \<Rightarrow> nat \<Rightarrow> nat" where
  "nearest_quotient n d =
     (let q = n div d; r = n mod d
      in if 2 * r < d then q else if d < 2 * r then q + 1 else if even q then q else q + 1)"

text \<open>\<open>n * 2 ^ k\<close> for \<open>k \<ge> 0\<close>, and \<open>n\<close> for a negative \<open>k\<close>.\<close>

definition shifted :: "nat \<Rightarrow> int \<Rightarrow> nat" where
  "shifted n k = n * 2 ^ nat k"

text \<open>
  The float nearest to the quotient \<open>n / d\<close> of two naturals, \<open>d > 0\<close>: with
  \<open>2 ^ e \<le> n / d < 2 ^ (e + 1)\<close> the significand is the integer nearest to
  \<open>n / d / 2 ^ (e - 52)\<close>.
\<close>

definition nearest_double :: "nat \<Rightarrow> nat \<Rightarrow> double" where
  "nearest_double n d =
     (if n = 0 then Double 0 0
      else
        (let e0 = int (bit_length n) - int (bit_length d);
             e = (if shifted d e0 \<le> shifted n (- e0) then e0 else e0 - 1);
             k = e - 52
         in Double (nearest_quotient (shifted n (- k)) (shifted d k)) k))"

text \<open>
  The three operations of \<^verbatim>\<open>round(part / whole * 100, 2)\<close>: the true division of two
  integers, the product of a float and an integer, and \<^verbatim>\<open>round(x, 2)\<close>, which rounds
  the exact value of \<open>x\<close> to the nearest multiple of 0.01, a tie going to the even
  multiple, and returns the float nearest to that.
\<close>

definition true_div :: "nat \<Rightarrow> nat \<Rightarrow> double" where
  "true_div a b = nearest_double a b"

fun times_int :: "double \<Rightarrow> nat \<Rightarrow> double" where
  "times_int (Double m k) c = nearest_double (shifted (m * c) k) (shifted 1 (- k))"

fun py_round2 :: "double \<Rightarrow> double" where
  "py_round2 (Double m k) =
     nearest_double (nearest_quotient (shifted (m * 100) k) (shifted 1 (- k))) 100"

text \<open>
  \<^verbatim>\<open>round(part / whole * 100, 2) if whole > 0 else 0\<close>, as the number it denotes.
\<close>

definition rate :: "nat \<Rightarrow> nat \<Rightarrow> rat" where
  "rate part whole =
     (if whole > 0 then value_of (py_round2 (times_int (true_div part whole) 100)) else 0)"

text \<open>
  The statistics block of \<^verbatim>\<open>campaign_stats\<close>. \<^verbatim>\<open>len\<close> raises \<^verbatim>\<open>TypeError\<close> on a loaded
  value without a length; \<^verbatim>\<open>.values()\<close> raises \<^verbatim>\<open>AttributeError\<close> on a list or a string.
\<close>

definition compute_stats :: "string \<Rightarrow> json \<Rightarrow> py_error + stats" where
  "compute_stats cid tracking_data =
     (case tracking_data of
        JDict d \<Rightarrow>
          (case count_flag ''opened'' (map snd d) of
             Inl e \<Rightarrow> Inl e
           | Inr opens \<Rightarrow>
               (case count_flag ''clicked'' (map snd d) of
                  Inl e \<Rightarrow> Inl e
                | Inr clicks \<Rightarrow>
                    Inr \<lparr>campaign_id = cid,
                         total_recipients = length d,
                         total_opens = opens,
                         total_clicks = clicks,
                         open_rate = rate opens (length d),
                         click_rate = rate clicks (length d),
                         click_to_open_rate = rate clicks opens\<rparr>))
      | JList l \<Rightarrow> Inl AttributeError
      | JStr s \<Rightarrow> Inl AttributeError
      | _ \<Rightarrow> Inl TypeError)"

definition campaign_stats :: "string \<Rightarrow> server \<Rightarrow> response \<times> server" where
  "campaign_stats cid st =
     (if \<not> is_valid_campaign_id cid then (Abort 400, st)
      else
        (let data_file = data_file_of cid
         in if files st data_file = None then (JsonError 404 ''Campaign not found'', st)
            else
              (case load_file (files st) data_file of
                 Inl e \<Rightarrow>
                   (JsonError 500 ''Internal server error'',
                    logged_exc ERROR (''Error generating stats for campaign '' @ cid @ '': '')
                      e st)
               | Inr tracking_data \<Rightarrow>
                   (case compute_stats cid tracking_data of
                      Inl e \<Rightarrow>
                        (JsonError 500 ''Internal server error'',
                         logged_exc ERROR
                           (''Error generating stats for campaign '' @ cid @ '': '') e st)
                    | Inr s \<Rightarrow> (JsonStats s, st)))))"

section \<open>The send loop of \<^verbatim>\<open>run_campaign\<close>\<close>

text \<open>
  Of a row of the lead table the loop uses whether it has a usable \<^verbatim>\<open>Email\<close> value
  (otherwise the row is skipped with \<^verbatim>\<open>continue\<close>) and what each step of the body does
  on it, in the order of the source:
  \<^item> whether \<^verbatim>\<open>_prepare_email\<close> raises: it does on a \<^verbatim>\<open>Contact Person\<close> cell that is
    true and no string (a blank cell of the spreadsheet is NaN), where
    \<^verbatim>\<open>full_name.split()\<close> raises \<^verbatim>\<open>AttributeError\<close>, and on one that holds only blanks,
    where \<^verbatim>\<open>[0]\<close> raises \<^verbatim>\<open>IndexError\<close>;
  \<^item> whether \<^verbatim>\<open>_send_email\<close> reports success (it catches its own exceptions and
    returns \<^verbatim>\<open>False\<close>);
  \<^item> after a success, whether keeping the copy of the sent message raises: the join
    over \<^verbatim>\<open>company_name\<close> raises \<^verbatim>\<open>TypeError\<close> on a cell that is no string, and
    \<^verbatim>\<open>open\<close> raises when the file cannot be written;
  \<^item> whether \<^verbatim>\<open>_save_tracking_data\<close> raises, on a file that cannot be written or on a
    value that JSON cannot encode.
  Nothing in \<^verbatim>\<open>run_campaign\<close> catches these exceptions: the first one ends the run. The
  settings are read from the environment as integers of any sign.
\<close>

record lead =
  has_email :: bool
  prepare_error :: "py_error option"
  delivered :: bool
  archive_error :: "py_error option"
  save_error :: "py_error option"

record campaign =
  batch_size :: int
  delay_min :: int
  delay_max :: int

text \<open>
  The observable run: the two counters that \<^verbatim>\<open>run_campaign\<close> returns, the calls of
  \<^verbatim>\<open>time.sleep\<close> in order (each with the index \<open>i\<close> of the row it follows and its
  duration), and the number of random draws made so far.
\<close>

datatype pause = Delay nat int | BatchBreak nat int

record run =
  successful_sends :: nat
  failed_sends :: nat
  pauses :: "pause list"
  draws :: nat

text \<open>
  \<^verbatim>\<open>random.randint(a, b)\<close> raises \<^verbatim>\<open>ValueError\<close> on an empty range and otherwise returns
  some integer of \<open>[a, b]\<close>; the source of randomness is a sequence of naturals, the
  \<open>k\<close>-th of which selects the \<open>k\<close>-th draw. \<^verbatim>\<open>time.sleep\<close> keeps the duration as a
  signed 64-bit count of nanoseconds: it raises \<^verbatim>\<open>OverflowError\<close> on a number of seconds
  that does not fit, and \<^verbatim>\<open>ValueError\<close> on a negative one.
\<close>

definition time_sleep :: "int \<Rightarrow> py_error option" where
  "time_sleep secs =
     (if secs * 1000000000 < - (2 ^ 63) \<or> 2 ^ 63 \<le> secs * 1000000000 then Some OverflowError
      else if secs < 0 then Some ValueError
      else None)"

definition randint :: "(nat \<Rightarrow> nat) \<Rightarrow> nat \<Rightarrow> int \<Rightarrow> int \<Rightarrow> py_error + int" where
  "randint entropy k a b =
     (if b < a then Inl ValueError else Inr (a + int (entropy k mod nat (b - a + 1))))"

definition sleep_after :: "(nat \<Rightarrow> nat) \<Rightarrow> (int \<Rightarrow> pause) \<Rightarrow> int \<Rightarrow> int \<Rightarrow> run
    \<Rightarrow> py_error + run" where
  "sleep_after entropy kind a b r =
     (case randint entropy (draws r) a b of
        Inl e \<Rightarrow> Inl e
      | Inr d \<Rightarrow>
          (case time_sleep d of
             Some e \<Rightarrow> Inl e
           | None \<Rightarrow> Inr (r\<lparr>pauses := pauses r @ [kind d], draws := Suc (draws r)\<rparr>)))"

text \<open>
  The body of the loop up to the sleeps: prepare the message, send it, on success keep
  the copy and count the success, on failure count the failure, then save the tracking
  data.
\<close>

definition send_one :: "lead \<Rightarrow> run \<Rightarrow> py_error + run" where
  "send_one ld r =
     (case prepare_error ld of
        Some e \<Rightarrow> Inl e
      | None \<Rightarrow>
          (case (if delivered ld
                 then (case archive_error ld of
                         Some e \<Rightarrow> Inl e
                       | None \<Rightarrow> Inr (r\<lparr>successful_sends := Suc (successful_sends r)\<rparr>))
                 else Inr (r\<lparr>failed_sends := Suc (failed_sends r)\<rparr>)) of
             Inl e \<Rightarrow> Inl e
           | Inr r1 \<Rightarrow>
               (case save_error ld of
                  Some e \<Rightarrow> Inl e
                | None \<Rightarrow> Inr r1)))"

fun send_loop :: "campaign \<Rightarrow> (nat \<Rightarrow> nat) \<Rightarrow> nat \<Rightarrow> nat \<Rightarrow> lead list \<Rightarrow> run
    \<Rightarrow> py_error + run" where
  "send_loop c entropy total_leads i [] r = Inr r"
| "send_loop c entropy total_leads i (ld # rest) r =
     (if \<not> has_email ld then send_loop c entropy total_leads (Suc i) rest r
      else
        (case send_one ld r of
           Inl e \<Rightarrow> Inl e
         | Inr r1 \<Rightarrow>
             (case (if int i < int total_leads - 1
                    then sleep_after entropy (Delay i) (delay_min c) (delay_max c) r1
                    else Inr r1) of
                Inl e \<Rightarrow> Inl e
              | Inr r2 \<Rightarrow>
                  if batch_size c = 0 then Inl ZeroDivisionError
                  else
                    (case (if (int i + 1) mod batch_size c = 0 \<and> int i < int total_leads - 1
                           then sleep_after entropy (BatchBreak i) (delay_max c * 2)
                                  (delay_max c * 3) r2
                           else Inr r2) of
                       Inl e \<Rightarrow> Inl e
                     | Inr r3 \<Rightarrow> send_loop c entropy total_leads (Suc i) rest r3))))"

text \<open>
  \<^verbatim>\<open>run_campaign\<close> from the first row on, that is once the directory for the copies of
  the sent messages exists: the counters start at 0 and \<^verbatim>\<open>total_leads\<close> is the number of
  rows of the table, with or without address.
\<close>

definition run_campaign :: "campaign \<Rightarrow> (nat \<Rightarrow> nat) \<Rightarrow> lead list \<Rightarrow> py_error + run" where
  "run_campaign c entropy leads =
     send_loop c entropy (length leads) 0 leads
       \<lparr>successful_sends = 0, failed_sends = 0, pauses = [], draws = 0\<rparr>"

section \<open>Observations and example inputs\<close>

text \<open>The entry of a tracking id in the file its campaign segment routes to.\<close>

definition entry_of :: "server \<Rightarrow> string \<Rightarrow> json option" where
  "entry_of st tracking_id =
     (case parse_campaign_id tracking_id of
        Inl _ \<Rightarrow> None
      | Inr cid \<Rightarrow>
          (case files st (data_file_of cid) of
             Some (Parsed (JDict d)) \<Rightarrow> map_of d tracking_id
           | _ \<Rightarrow> None))"

text \<open>A flag of an entry counts as set when the key is present with a true value.\<close>

definition flag_set :: "string \<Rightarrow> json option \<Rightarrow> bool" where
  "flag_set key entry =
     (case entry of
        Some (JDict e) \<Rightarrow> (case map_of e key of Some v \<Rightarrow> truthy v | None \<Rightarrow> False)
      | _ \<Rightarrow> False)"

definition events_of :: "json option \<Rightarrow> json list" where
  "events_of entry =
     (case entry of
        Some (JDict e) \<Rightarrow> (case map_of e ''events'' of Some (JList evs) \<Rightarrow> evs | _ \<Rightarrow> [])
      | _ \<Rightarrow> [])"

text \<open>The file a tracking id routes to.\<close>

definition file_of :: "string \<Rightarrow> string" where
  "file_of tracking_id =
     (case parse_campaign_id tracking_id of Inl _ \<Rightarrow> [] | Inr cid \<Rightarrow> data_file_of cid)"

text \<open>
  A store accepts events for a tracking id when writes to its file go through and the
  file is absent or holds a JSON object in which the entry of the id, if there is one,
  is an object with an \<^verbatim>\<open>events\<close> list.
\<close>

definition accepts_events :: "server \<Rightarrow> string \<Rightarrow> bool" where
  "accepts_events st tracking_id =
     (case parse_campaign_id tracking_id of
        Inl _ \<Rightarrow> False
      | Inr cid \<Rightarrow>
          disk st (data_file_of cid) = Written \<and>
          (case files st (data_file_of cid) of
             None \<Rightarrow> True
           | Some (Parsed (JDict d)) \<Rightarrow>
               (case map_of d tracking_id of
                  None \<Rightarrow> True
                | Some (JDict e) \<Rightarrow>
                    (case map_of e ''events'' of Some (JList evs) \<Rightarrow> True | _ \<Rightarrow> False)
                | Some _ \<Rightarrow> False)
           | Some _ \<Rightarrow> False))"

text \<open>
  A sequence of requests for one tracking id, each to the pixel endpoint or to the
  click endpoint, served one after the other.
\<close>

datatype hit = Open request | Click request

fun is_open :: "hit \<Rightarrow> bool" where
  "is_open (Open req) = True"
| "is_open (Click req) = False"

fun is_click :: "hit \<Rightarrow> bool" where
  "is_click (Open req) = False"
| "is_click (Click req) = True"

fun serve :: "(string \<Rightarrow> py_error + parse_result) \<Rightarrow> (string \<Rightarrow> py_error + string)
    \<Rightarrow> string \<Rightarrow> hit list \<Rightarrow> server \<Rightarrow> server" where
  "serve urlparse redirect tracking_id [] st = st"
| "serve urlparse redirect tracking_id (Open req # hs) st =
     serve urlparse redirect tracking_id hs (snd (track_open tracking_id req st))"
| "serve urlparse redirect tracking_id (Click req # hs) st =
     serve urlparse redirect tracking_id hs
       (snd (track_click urlparse redirect tracking_id req st))"

definition is_dict :: "json \<Rightarrow> bool" where
  "is_dict j = (case j of JDict e \<Rightarrow> True | _ \<Rightarrow> False)"






text \<open>
  The entry that results from merging an event into the fields \<open>e\<close> of an entry whose
  events were \<open>evs\<close>: the three assignments of \<^verbatim>\<open>update_tracking_data\<close> in order.
\<close>

definition merged :: "string \<Rightarrow> string \<Rightarrow> json \<Rightarrow> json list \<Rightarrow> (string \<times> json) list \<Rightarrow> json" where
  "merged action t ev evs e =
     JDict (AList.update ''last_activity'' (JStr t)
             (AList.update action (JBool True)
               (AList.update ''events'' (JList (evs @ [ev])) e)))"

text \<open>The target of the click endpoint: the \<^verbatim>\<open>url\<close> argument when it is given and passes
  \<^verbatim>\<open>is_valid_url\<close>, the default otherwise.\<close>

definition resolved_url :: "(string \<Rightarrow> py_error + parse_result) \<Rightarrow> string option \<Rightarrow> string" where
  "resolved_url urlparse arg =
     (case arg of
        None \<Rightarrow> DEFAULT_REDIRECT_URL
      | Some u \<Rightarrow> if is_valid_url urlparse u then u else DEFAULT_REDIRECT_URL)"

text \<open>Example inputs.\<close>

text \<open>An operating system that lets every write through.\<close>

definition writes_through :: "string \<Rightarrow> write_outcome" where
  "writes_through path = Written"

definition fresh_server :: server where
  "fresh_server =
     \<lparr>files = Map.empty, disk = writes_through, pixel_present = True, log_lines = []\<rparr>"

definition client :: "string \<Rightarrow> request" where
  "client t = \<lparr>remote_addr = Some ''203.0.113.9'', user_agent_header = Some ''Mozilla/5.0'',
               url_arg = None, now = t\<rparr>"

definition clicking :: "string \<Rightarrow> string \<Rightarrow> request" where
  "clicking u t = \<lparr>remote_addr = Some ''203.0.113.9'', user_agent_header = Some ''Mozilla/5.0'',
                   url_arg = Some u, now = t\<rparr>"


text \<open>
  An entry with the fields that \<^verbatim>\<open>_prepare_email\<close> of the sender gives an entry: the
  flags and no \<^verbatim>\<open>events\<close> key. The store below holds it under a two-segment key in
  the directory of the server; it is written by hand, the sender itself keeps its
  entries under three-segment keys in a file of its own directory.
\<close>

definition seed_entry :: json where
  "seed_entry =
     JDict [(''lead_id'', JStr ''7''), (''company'', JStr ''Acme''),
            (''contact'', JStr ''Ann Lee''), (''email'', JStr ''ann@acme.example''),
            (''sent_time'', JNull), (''opened'', JBool False), (''clicked'', JBool False),
            (''responded'', JBool False), (''last_activity'', JNull)]"

definition seeded_server :: server where
  "seeded_server =
     \<lparr>files = [data_file_of ''20250101000000'' \<mapsto>
                 Parsed (JDict [(''20250101000000_7'', seed_entry)])],
      disk = writes_through, pixel_present = True, log_lines = []\<rparr>"

text \<open>A server whose entry for the lead already has one event and both flags.\<close>

definition engaged_server :: server where
  "engaged_server =
     \<lparr>files = [data_file_of ''20250101000000'' \<mapsto>
                 Parsed (JDict [(''20250101000000_7'',
                   JDict [(''first_seen'', JStr ''2025-01-02T08:00:00''),
                          (''events'', JList [event_data ''clicked'' ''2025-01-02T08:00:00''
                             (Some ''203.0.113.9'') (Some ''Mozilla/5.0'')
                             (Some ''https://example.com/offer'')]),
                          (''clicked'', JBool True), (''opened'', JBool True),
                          (''last_activity'', JStr ''2025-01-02T08:30:00'')])])],
      disk = writes_through, pixel_present = True, log_lines = []\<rparr>"

text \<open>A URL with a line break inside the host name.\<close>

definition broken_url :: string where
  "broken_url = ''https://exa'' @ [CHR 0x0A] @ ''mple.com/x''"

text \<open>
  The values of \<^verbatim>\<open>urlparse\<close> at the URLs of the examples (it removes the line break
  of the broken URL before it splits); every other string is taken as a relative
  reference without scheme and network location.
\<close>

definition urlparse_sample :: "string \<Rightarrow> py_error + parse_result" where
  "urlparse_sample url =
     (if url = ''https://www.example.com''
        then Inr \<lparr>scheme = ''https'', netloc = ''www.example.com''\<rparr>
      else if url = ''https://example.com/offer''
        then Inr \<lparr>scheme = ''https'', netloc = ''example.com''\<rparr>
      else if url = broken_url
        then Inr \<lparr>scheme = ''https'', netloc = ''example.com''\<rparr>
      else if url = ''http://:80''
        then Inr \<lparr>scheme = ''http'', netloc = '':80''\<rparr>
      else if url = ''javascript:alert(1)''
        then Inr \<lparr>scheme = ''javascript'', netloc = []\<rparr>
      else Inr \<lparr>scheme = [], netloc = []\<rparr>)"

text \<open>
  \<^verbatim>\<open>redirect\<close> as far as the examples need it: it raises \<^verbatim>\<open>ValueError\<close> on a URL with
  a carriage return or a line feed, which cannot go into a header, and returns the URL
  as the location otherwise.
\<close>

definition redirect_sample :: "string \<Rightarrow> py_error + string" where
  "redirect_sample url =
     (if CHR 0x0A \<in> set url \<or> CHR 0x0D \<in> set url then Inl ValueError else Inr url)"

text \<open>A server on which the operating system refuses to open any file for writing.\<close>

definition refusing :: "string \<Rightarrow> write_outcome" where
  "refusing path = Refused"

definition locked_server :: server where
  "locked_server =
     \<lparr>files = Map.empty, disk = refusing, pixel_present = True, log_lines = []\<rparr>"

text \<open>An operating system on which every write is torn.\<close>

definition tearing :: "string \<Rightarrow> write_outcome" where
  "tearing path = Torn"

text \<open>The entries of a store with three recipients, one of whom opened.\<close>

definition three_entries :: "(string \<times> json) list" where
  "three_entries =
     [(''20250101000000_1'', JDict [(''opened'', JBool True), (''clicked'', JBool False)]),
      (''20250101000000_2'', JDict [(''opened'', JBool False), (''clicked'', JBool False)]),
      (''20250101000000_3'', JDict [(''opened'', JBool False), (''clicked'', JBool False)])]"

text \<open>
  How far a rate may be from the unrounded percentage \<open>q * 100\<close> of a quotient \<open>q\<close>:
  half a unit of the second decimal for \<^verbatim>\<open>round\<close>, and the rounding errors of the three
  floating-point operations.
\<close>

definition rate_slack :: "rat \<Rightarrow> rat" where
  "rate_slack q = 1 / 200 + (q * 700 + 1) / 2 ^ 53"

text \<open>Whether an entry is an object that has the key at all.\<close>

definition has_key :: "string \<Rightarrow> json \<Rightarrow> bool" where
  "has_key key j = (case j of JDict e \<Rightarrow> map_of e key \<noteq> None | _ \<Rightarrow> False)"

text \<open>
  A server whose campaign file holds a shell entry, as \<^verbatim>\<open>update_tracking_data\<close> creates
  it before the event is merged, and an entry with both flags.
\<close>

definition shell_server :: server where
  "shell_server =
     \<lparr>files = [data_file_of ''20250101000000'' \<mapsto>
                 Parsed (JDict [(''20250101000000_7'', shell_entry ''2025-01-02T09:00:00''),
                                (''20250101000000_8'',
                                 JDict [(''opened'', JBool True), (''clicked'', JBool True)])])],
      disk = writes_through, pixel_present = True, log_lines = []\<rparr>"

definition no_entropy :: "nat \<Rightarrow> nat" where
  "no_entropy k = 0"

definition settings :: "int \<Rightarrow> int \<Rightarrow> int \<Rightarrow> campaign" where
  "settings b lo hi = \<lparr>batch_size = b, delay_min = lo, delay_max = hi\<rparr>"

text \<open>
  A row with an address on which every step returns, a row without an address, and a
  row with an address and a blank \<^verbatim>\<open>Contact Person\<close> cell.
\<close>

definition addressed :: lead where
  "addressed = \<lparr>has_email = True, prepare_error = None, delivered = True,
                 archive_error = None, save_error = None\<rparr>"


definition blank_contact :: lead where
  "blank_contact = \<lparr>has_email = True, prepare_error = Some AttributeError, delivered = True,
                     archive_error = None, save_error = None\<rparr>"

section \<open>Properties of the identifier scheme\<close>

lemma split_on_not_Nil: "split_on sep s \<noteq> []"
  by (induction s) (auto split: list.splits)

lemma split_on_first:
  "sep \<notin> set a \<Longrightarrow> \<exists>ws. split_on sep (a @ sep # b) = a # ws"
proof (induction a)
  case Nil
  show ?case by simp
next
  case (Cons c a)
  then obtain ws where "split_on sep (a @ sep # b) = a # ws" by auto
  with Cons.prems show ?case by auto
qed

lemma alnum_not_underscore: "alnum c \<Longrightarrow> c \<noteq> CHR ''_''"
  by (auto simp: alnum_def)

lemma alnum_not_newline: "alnum c \<Longrightarrow> c \<noteq> CHR 0x0A"
  by (auto simp: alnum_def)

lemma re_match_Many1:
  "re_match (Many1 p # r) s \<longleftrightarrow>
     (\<exists>a b. s = a @ b \<and> a \<noteq> [] \<and> list_all p a \<and> re_match r b)"
proof (induction s)
  case Nil
  show ?case by simp
next
  case (Cons c cs)
  show ?case
  proof
    assume m: "re_match (Many1 p # r) (c # cs)"
    then have pc: "p c" by simp
    from m have "re_match (Many1 p # r) cs \<or> re_match r cs" by simp
    then show "\<exists>a b. c # cs = a @ b \<and> a \<noteq> [] \<and> list_all p a \<and> re_match r b"
    proof
      assume "re_match (Many1 p # r) cs"
      with Cons.IH obtain a b where "cs = a @ b" "list_all p a" "re_match r b" by blast
      with pc have "c # cs = (c # a) @ b \<and> c # a \<noteq> [] \<and> list_all p (c # a) \<and> re_match r b"
        by simp
      then show ?thesis by blast
    next
      assume "re_match r cs"
      with pc have "c # cs = [c] @ cs \<and> [c] \<noteq> [] \<and> list_all p [c] \<and> re_match r cs"
        by simp
      then show ?thesis by blast
    qed
  next
    assume "\<exists>a b. c # cs = a @ b \<and> a \<noteq> [] \<and> list_all p a \<and> re_match r b"
    then obtain a b where ab: "c # cs = a @ b" "a \<noteq> []" "list_all p a" "re_match r b"
      by blast
    then obtain a' where a: "a = c # a'" by (cases a) auto
    with ab have cs: "cs = a' @ b" and pc: "p c" and pa: "list_all p a'" by auto
    show "re_match (Many1 p # r) (c # cs)"
    proof (cases a')
      case Nil
      with cs ab pc show ?thesis by simp
    next
      case (Cons x xs)
      with cs pa ab have "re_match (Many1 p # r) cs"
        using Cons.IH by blast
      with pc show ?thesis by simp
    qed
  qed
qed

text \<open>The language the validator accepts: two non-empty alphanumeric segments around
  one underscore, optionally followed by one newline.\<close>

lemma is_valid_tracking_id_iff:
  "is_valid_tracking_id s \<longleftrightarrow>
     (\<exists>a b. a \<noteq> [] \<and> b \<noteq> [] \<and> list_all alnum a \<and> list_all alnum b \<and>
        (s = a @ ''_'' @ b \<or> s = a @ ''_'' @ b @ [CHR 0x0A]))"
  (is "?L \<longleftrightarrow> ?R")
proof
  assume ?L
  then obtain a t where a: "s = a @ t" "a \<noteq> []" "list_all alnum a"
    and t: "re_match [One underscore, Many1 alnum, Dollar] t"
    unfolding is_valid_tracking_id_def VALID_TRACKING_ID_PATTERN_def re_match_Many1 by blast
  from t obtain u where u: "t = CHR ''_'' # u" "re_match [Many1 alnum, Dollar] u"
    by (cases t) (auto simp: underscore_def)
  from u(2) obtain b e where b: "u = b @ e" "b \<noteq> []" "list_all alnum b" "re_match [Dollar] e"
    unfolding re_match_Many1 by blast
  from b(4) have "e = [] \<or> e = [CHR 0x0A]" by simp
  with a u b show ?R by auto
next
  assume ?R
  then obtain a b where ab: "a \<noteq> []" "b \<noteq> []" "list_all alnum a" "list_all alnum b"
    and s: "s = a @ ''_'' @ b \<or> s = a @ ''_'' @ b @ [CHR 0x0A]" by blast
  from s obtain e where e: "s = a @ (CHR ''_'' # (b @ e))" "e = [] \<or> e = [CHR 0x0A]" by auto
  from e(2) have "re_match [Dollar] e" by auto
  with ab have "re_match [Many1 alnum, Dollar] (b @ e)"
    unfolding re_match_Many1 by blast
  then have "re_match [One underscore, Many1 alnum, Dollar] (CHR ''_'' # (b @ e))"
    by (simp add: underscore_def)
  with ab e(1) show ?L
    unfolding is_valid_tracking_id_def VALID_TRACKING_ID_PATTERN_def re_match_Many1 by blast
qed

lemma alnum_no_underscores: "list_all alnum a \<Longrightarrow> filter underscore a = []"
  by (induction a) (auto simp: underscore_def dest: alnum_not_underscore)

lemma valid_one_underscore:
  assumes "is_valid_tracking_id s"
  shows "length (filter underscore s) = 1"
proof -
  from assms obtain a b where ab: "list_all alnum a" "list_all alnum b"
    and s: "s = a @ ''_'' @ b \<or> s = a @ ''_'' @ b @ [CHR 0x0A]"
    unfolding is_valid_tracking_id_iff by blast
  from s show ?thesis
    by (auto simp: alnum_no_underscores ab underscore_def)
qed

text \<open>
  C1. The claim: the validator accepts exactly the identifiers of three non-empty
  alphanumeric segments separated by two underscores, so every identifier that
  \<^verbatim>\<open>_generate_tracking_id\<close> produces from alphanumeric parts is accepted. The pattern of
  the server has one underscore, not two: whatever the campaign id, the lead id and
  the random suffix are, the generated identifier has at least two underscores and
  the validator rejects it.
\<close>

theorem generated_id_rejected:
  "\<not> is_valid_tracking_id (generate_tracking_id cid lid nonce)"
proof
  assume "is_valid_tracking_id (generate_tracking_id cid lid nonce)"
  then have "length (filter underscore (generate_tracking_id cid lid nonce)) = 1"
    by (rule valid_one_underscore)
  then show False
    by (simp add: generate_tracking_id_def underscore_def)
qed

lemma generated_id_rejected_example:
  "is_valid_tracking_id (generate_tracking_id ''20250101000000'' ''7'' ''a1b2c3d4'') = False"
  by (simp add: is_valid_tracking_id_def VALID_TRACKING_ID_PATTERN_def
      generate_tracking_id_def alnum_def underscore_def)

lemma two_segment_id_accepted: "is_valid_tracking_id ''20250101000000_7''"
  by (simp add: is_valid_tracking_id_def VALID_TRACKING_ID_PATTERN_def
      alnum_def underscore_def)

lemma path_id_rejected: "\<not> is_valid_tracking_id ''../etc/passwd''"
  by (simp add: is_valid_tracking_id_def VALID_TRACKING_ID_PATTERN_def
      alnum_def underscore_def)

text \<open>
  C3. Round-trip routing: when neither the campaign id nor the recipient id contains an
  underscore, the first underscore-delimited segment of the generated identifier is the
  campaign id.
\<close>

theorem parse_generate_roundtrip:
  assumes "CHR ''_'' \<notin> set cid" and "CHR ''_'' \<notin> set lid"
  shows "parse_campaign_id (generate_tracking_id cid lid nonce) = Inr cid"
proof -
  obtain ws where
    "split_on CHR ''_'' (cid @ CHR ''_'' # (lid @ ''_'' @ nonce)) = cid # ws"
    using split_on_first [OF assms(1)] by blast
  then show ?thesis
    by (simp add: parse_campaign_id_def generate_tracking_id_def)
qed

theorem parse_generate_roundtrip_witness:
  "CHR ''_'' \<notin> set ''20250101000000'' \<and> CHR ''_'' \<notin> set ''7'' \<and>
   parse_campaign_id (generate_tracking_id ''20250101000000'' ''7'' ''a1b2c3d4'')
     = Inr ''20250101000000''"
  using parse_generate_roundtrip [of "''20250101000000''" "''7''" "''a1b2c3d4''"]
  by simp

section \<open>Properties of event ingestion\<close>

lemma parse_campaign_id_total: "\<exists>cid. parse_campaign_id tid = Inr cid"
  using split_on_not_Nil [of "CHR ''_''" tid]
  by (cases "split_on CHR ''_'' tid") (auto simp: parse_campaign_id_def)

lemma files_logged [simp]: "files (logged lv m st) = files st"
  by (simp add: logged_def)

lemma files_logged_exc [simp]: "files (logged_exc lv m e st) = files st"
  by (simp add: logged_exc_def)

lemma disk_logged [simp]: "disk (logged lv m st) = disk st"
  by (simp add: logged_def)

lemma disk_logged_exc [simp]: "disk (logged_exc lv m e st) = disk st"
  by (simp add: logged_exc_def)

lemma pixel_logged [simp]: "pixel_present (logged lv m st) = pixel_present st"
  by (simp add: logged_def)

lemma pixel_logged_exc [simp]: "pixel_present (logged_exc lv m e st) = pixel_present st"
  by (simp add: logged_exc_def)

lemma dump_json_frame:
  assumes "dump_json path data st = (r, st')"
  shows "disk st' = disk st" and "pixel_present st' = pixel_present st"
  using assms by (cases "disk st path"; auto simp: dump_json_def)+

lemma create_frame:
  assumes "(if files st path = None then dump_json path data st else (None, st)) = (r, st')"
  shows "disk st' = disk st" and "pixel_present st' = pixel_present st"
  using assms dump_json_frame [of path data st r st'] by (auto split: if_splits)

lemma dump_json_written:
  "disk st path = Written \<Longrightarrow>
   dump_json path data st = (None, st\<lparr>files := (files st)(path \<mapsto> Parsed data)\<rparr>)"
  by (simp add: dump_json_def)

lemma dump_json_refused: "disk st path = Refused \<Longrightarrow> dump_json path data st = (Some OSError, st)"
  by (simp add: dump_json_def)

text \<open>The outcome of \<^verbatim>\<open>update_tracking_data\<close> by the first of its steps that raises.\<close>

lemma update_cases:
  assumes p: "parse_campaign_id tid = Inr cid"
  obtains (create_failed) e st1 where "files st (data_file_of cid) = None"
      and "dump_json (data_file_of cid) (JDict []) st = (Some e, st1)"
      and "update_tracking_data tid action ip ua url t st
             = logged_exc ERROR (''Error updating tracking data for '' @ tid @ '': '') e st1"
  | (load_failed) e st1 where
      "(if files st (data_file_of cid) = None then dump_json (data_file_of cid) (JDict []) st
        else (None, st)) = (None, st1)"
      and "load_file (files st1) (data_file_of cid) = Inl e"
      and "update_tracking_data tid action ip ua url t st
             = logged_exc ERROR (''Error updating tracking data for '' @ tid @ '': '') e st1"
  | (merge_failed) e st1 td where
      "(if files st (data_file_of cid) = None then dump_json (data_file_of cid) (JDict []) st
        else (None, st)) = (None, st1)"
      and "load_file (files st1) (data_file_of cid) = Inr td"
      and "merge_event td tid action t ip ua url = Inl e"
      and "update_tracking_data tid action ip ua url t st
             = logged_exc ERROR (''Error updating tracking data for '' @ tid @ '': '') e st1"
  | (save_failed) e st1 td td' st2 where
      "(if files st (data_file_of cid) = None then dump_json (data_file_of cid) (JDict []) st
        else (None, st)) = (None, st1)"
      and "load_file (files st1) (data_file_of cid) = Inr td"
      and "merge_event td tid action t ip ua url = Inr td'"
      and "dump_json (data_file_of cid) td' st1 = (Some e, st2)"
      and "update_tracking_data tid action ip ua url t st
             = logged_exc ERROR (''Error updating tracking data for '' @ tid @ '': '') e st2"
  | (saved) st1 td td' st2 where
      "(if files st (data_file_of cid) = None then dump_json (data_file_of cid) (JDict []) st
        else (None, st)) = (None, st1)"
      and "load_file (files st1) (data_file_of cid) = Inr td"
      and "merge_event td tid action t ip ua url = Inr td'"
      and "dump_json (data_file_of cid) td' st1 = (None, st2)"
      and "update_tracking_data tid action ip ua url t st
             = logged INFO (''Updated tracking data for '' @ tid @ '': '' @ action) st2"
proof -
  let ?f = "data_file_of cid"
  obtain r0 st1 where c: "(if files st ?f = None then dump_json ?f (JDict []) st
        else (None, st)) = (r0, st1)"
    by (cases "if files st ?f = None then dump_json ?f (JDict []) st else (None, st)") blast
  show thesis
  proof (cases r0)
    case (Some e)
    with c have n: "files st ?f = None" by (auto split: if_splits)
    with c Some have d: "dump_json ?f (JDict []) st = (Some e, st1)" by simp
    show ?thesis
      by (rule create_failed [OF n d]) (simp add: update_tracking_data_def p Let_def n d)
  next
    case None
    note c1 = c [unfolded None]
    show ?thesis
    proof (cases "load_file (files st1) ?f")
      case (Inl e)
      show ?thesis
        by (rule load_failed [OF c1 Inl]) (simp add: update_tracking_data_def p Let_def c1 Inl)
    next
      case (Inr td)
      show ?thesis
      proof (cases "merge_event td tid action t ip ua url")
        case (Inl e)
        show ?thesis
          by (rule merge_failed [OF c1 Inr Inl])
            (simp add: update_tracking_data_def p Let_def c1 Inr Inl)
      next
        case m: (Inr td')
        obtain r2 st2 where d: "dump_json ?f td' st1 = (r2, st2)"
          by (cases "dump_json ?f td' st1") blast
        show ?thesis
        proof (cases r2)
          case (Some e)
          show ?thesis
            by (rule save_failed [OF c1 Inr m d [unfolded Some]])
              (simp add: update_tracking_data_def p Let_def c1 Inr m d Some)
        next
          case None
          show ?thesis
            by (rule saved [OF c1 Inr m d [unfolded None]])
              (simp add: update_tracking_data_def p Let_def c1 Inr m d None)
        qed
      qed
    qed
  qed
qed

lemma update_tracking_data_frame:
  "disk (update_tracking_data tid action ip ua url t st) = disk st
   \<and> pixel_present (update_tracking_data tid action ip ua url t st) = pixel_present st"
proof -
  obtain cid where p: "parse_campaign_id tid = Inr cid"
    using parse_campaign_id_total by blast
  from p show ?thesis
  proof (cases rule: update_cases [where st = st and action = action and ip = ip
        and ua = ua and url = url and t = t])
    case (create_failed e st1)
    from dump_json_frame [OF create_failed(2)] show ?thesis
      by (simp add: create_failed(3))
  next
    case (load_failed e st1)
    from create_frame [OF load_failed(1)] show ?thesis
      by (simp add: load_failed(3))
  next
    case (merge_failed e st1 td)
    from create_frame [OF merge_failed(1)] show ?thesis
      by (simp add: merge_failed(4))
  next
    case (save_failed e st1 td td' st2)
    from create_frame [OF save_failed(1)] dump_json_frame [OF save_failed(4)] show ?thesis
      by (simp add: save_failed(5))
  next
    case (saved st1 td td' st2)
    from create_frame [OF saved(1)] dump_json_frame [OF saved(4)] show ?thesis
      by (simp add: saved(5))
  qed
qed

lemma disk_update_tracking_data [simp]:
  "disk (update_tracking_data tid action ip ua url t st) = disk st"
  using update_tracking_data_frame [of tid action ip ua url t st] by simp

lemma pixel_update_tracking_data [simp]:
  "pixel_present (update_tracking_data tid action ip ua url t st) = pixel_present st"
  using update_tracking_data_frame [of tid action ip ua url t st] by simp

lemma entry_of_files: "files st = files st' \<Longrightarrow> entry_of st tid = entry_of st' tid"
  by (simp add: entry_of_def split: sum.splits)

lemma accepts_events_files:
  "files st = files st' \<Longrightarrow> disk st = disk st' \<Longrightarrow> accepts_events st tid = accepts_events st' tid"
  by (simp add: accepts_events_def split: sum.splits)

lemma merge_event_present:
  assumes "map_of d tid = Some (JDict e)" and "map_of e ''events'' = Some (JList evs)"
  shows "merge_event (JDict d) tid action t ip ua url
           = Inr (JDict (AList.update tid (merged action t (event_data action t ip ua url) evs e) d))"
  using assms by (simp add: merge_event_def merged_def Let_def)

lemma merge_event_absent:
  assumes "map_of d tid = None"
  shows "merge_event (JDict d) tid action t ip ua url
           = Inr (JDict (AList.update tid
                    (merged action t (event_data action t ip ua url) []
                       [(''first_seen'', JStr t), (''events'', JList [])])
                    (AList.update tid (shell_entry t) d)))"
  using assms by (simp add: merge_event_def merged_def Let_def update_conv' shell_entry_def)

lemma update_files_present:
  assumes "parse_campaign_id tid = Inr cid"
    and "files st (data_file_of cid) = Some (Parsed (JDict d))"
    and "map_of d tid = Some (JDict e)" and "map_of e ''events'' = Some (JList evs)"
    and "disk st (data_file_of cid) = Written"
  shows "files (update_tracking_data tid action ip ua url t st)
           = (files st)(data_file_of cid \<mapsto>
               Parsed (JDict (AList.update tid
                 (merged action t (event_data action t ip ua url) evs e) d)))"
  using assms
  by (simp add: update_tracking_data_def load_file_def Let_def merge_event_present
      dump_json_def)

lemma update_files_new_entry:
  assumes "parse_campaign_id tid = Inr cid"
    and "files st (data_file_of cid) = Some (Parsed (JDict d))"
    and "map_of d tid = None"
    and "disk st (data_file_of cid) = Written"
  shows "files (update_tracking_data tid action ip ua url t st)
           = (files st)(data_file_of cid \<mapsto>
               Parsed (JDict (AList.update tid
                    (merged action t (event_data action t ip ua url) []
                       [(''first_seen'', JStr t), (''events'', JList [])])
                    (AList.update tid (shell_entry t) d))))"
  using assms
  by (simp add: update_tracking_data_def load_file_def Let_def merge_event_absent
      dump_json_def)

lemma update_files_new_file:
  assumes "parse_campaign_id tid = Inr cid"
    and "files st (data_file_of cid) = None"
    and "disk st (data_file_of cid) = Written"
  shows "files (update_tracking_data tid action ip ua url t st)
           = (files st)(data_file_of cid \<mapsto>
               Parsed (JDict [(tid,
                    merged action t (event_data action t ip ua url) []
                       [(''first_seen'', JStr t), (''events'', JList [])])]))"
  using assms merge_event_absent [of "[]" tid action t ip ua url]
  by (simp add: update_tracking_data_def load_file_def Let_def dump_json_def)

text \<open>When the operating system refuses the write, the call changes no file.\<close>

lemma update_files_refused:
  assumes p: "parse_campaign_id tid = Inr cid"
    and r: "disk st (data_file_of cid) = Refused"
  shows "files (update_tracking_data tid action ip ua url t st) = files st"
  using p
proof (cases rule: update_cases [where st = st and action = action and ip = ip
        and ua = ua and url = url and t = t])
  case (create_failed e st1)
  with r show ?thesis by (simp add: dump_json_def)
next
  case (load_failed e st1)
  with r show ?thesis by (auto simp: dump_json_def split: if_splits)
next
  case (merge_failed e st1 td)
  with r show ?thesis by (auto simp: dump_json_def split: if_splits)
next
  case (save_failed e st1 td td' st2)
  from save_failed(1) r have s1: "st1 = st" by (auto simp: dump_json_def split: if_splits)
  with save_failed(4) r have "st2 = st" by (simp add: dump_json_def)
  with save_failed(5) show ?thesis by simp
next
  case (saved st1 td td' st2)
  from saved(1) r have s1: "st1 = st" by (auto simp: dump_json_def split: if_splits)
  with saved(4) r show ?thesis by (simp add: dump_json_def)
qed

text \<open>When the file exists and the merge raises, the call changes no file.\<close>

lemma update_files_merge_failed:
  assumes p: "parse_campaign_id tid = Inr cid"
    and f: "files st (data_file_of cid) = Some (Parsed td)"
    and m: "merge_event td tid action t ip ua url = Inl e"
  shows "files (update_tracking_data tid action ip ua url t st) = files st"
  using p f m by (simp add: update_tracking_data_def Let_def load_file_def)

lemma accepts_events_cases:
  assumes "accepts_events st tid"
  obtains (new_file) cid where "parse_campaign_id tid = Inr cid"
      and "files st (data_file_of cid) = None"
      and "disk st (data_file_of cid) = Written"
  | (new_entry) cid d where "parse_campaign_id tid = Inr cid"
      and "files st (data_file_of cid) = Some (Parsed (JDict d))" and "map_of d tid = None"
      and "disk st (data_file_of cid) = Written"
  | (present) cid d e evs where "parse_campaign_id tid = Inr cid"
      and "files st (data_file_of cid) = Some (Parsed (JDict d))"
      and "map_of d tid = Some (JDict e)" and "map_of e ''events'' = Some (JList evs)"
      and "disk st (data_file_of cid) = Written"
proof -
  obtain cid where p: "parse_campaign_id tid = Inr cid"
    using parse_campaign_id_total by blast
  from assms p have w: "disk st (data_file_of cid) = Written"
    by (simp add: accepts_events_def)
  show thesis
  proof (cases "files st (data_file_of cid)")
    case None
    show ?thesis by (rule new_file [OF p None w])
  next
    case (Some c)
    from assms p Some obtain d where c: "c = Parsed (JDict d)"
      and ent: "case map_of d tid of
                  None \<Rightarrow> True
                | Some (JDict e) \<Rightarrow>
                    (case map_of e ''events'' of Some (JList evs) \<Rightarrow> True | _ \<Rightarrow> False)
                | Some _ \<Rightarrow> False"
      by (cases c; cases "case c of Parsed j \<Rightarrow> j"; simp add: accepts_events_def)
    show ?thesis
    proof (cases "map_of d tid")
      case None
      show ?thesis by (rule new_entry [OF p _ None w]) (simp add: Some c)
    next
      case (Some en)
      note en = this
      with ent obtain e where e: "en = JDict e"
        and ev: "case map_of e ''events'' of Some (JList evs) \<Rightarrow> True | _ \<Rightarrow> False"
        by (cases en; simp)
      from ev obtain x where x: "map_of e ''events'' = Some x"
        by (cases "map_of e ''events''"; simp)
      with ev obtain evs where "x = JList evs"
        by (cases x; simp)
      with x have "map_of e ''events'' = Some (JList evs)" by simp
      moreover from en e have "map_of d tid = Some (JDict e)" by simp
      moreover from \<open>files st (data_file_of cid) = Some c\<close> c
      have "files st (data_file_of cid) = Some (Parsed (JDict d))" by simp
      ultimately show ?thesis using present p w by blast
    qed
  qed
qed

lemma events_of_merged:
  assumes "action = ''opened'' \<or> action = ''clicked''"
  shows "events_of (Some (merged action t ev evs e)) = evs @ [ev]"
  using assms by (auto simp: events_of_def merged_def update_conv')

lemma flag_set_merged:
  assumes "action = ''opened'' \<or> action = ''clicked''"
    and "key = ''opened'' \<or> key = ''clicked''"
  shows "flag_set key (Some (merged action t ev evs e))
           = (key = action \<or> flag_set key (Some (JDict e)))"
  using assms by (auto simp: flag_set_def merged_def update_conv')

lemma accepts_merged:
  assumes "action = ''opened'' \<or> action = ''clicked''"
    and "files st' (data_file_of cid) = Some (Parsed (JDict d'))"
    and "map_of d' tid = Some (merged action t ev evs e)"
    and "parse_campaign_id tid = Inr cid"
    and "disk st' (data_file_of cid) = Written"
  shows "accepts_events st' tid"
proof -
  have "map_of (AList.update ''last_activity'' (JStr t)
             (AList.update action (JBool True)
               (AList.update ''events'' (JList (evs @ [ev])) e))) ''events''
        = Some (JList (evs @ [ev]))"
    using assms(1) by (auto simp: update_conv')
  then show ?thesis
    using assms(2-5) by (simp add: accepts_events_def merged_def)
qed

lemma shell_flags:
  assumes "key = ''opened'' \<or> key = ''clicked''"
  shows "\<not> flag_set key (Some (JDict [(''first_seen'', JStr t), (''events'', JList [])]))"
  using assms by (auto simp: flag_set_def)



lemma update_entry_shape:
  assumes acc: "accepts_events st tid"
    and act: "action = ''opened'' \<or> action = ''clicked''"
  shows "\<exists>e. entry_of (update_tracking_data tid action ip ua url t st) tid
               = Some (merged action t (event_data action t ip ua url)
                        (events_of (entry_of st tid)) e)
            \<and> flag_set ''opened'' (Some (JDict e)) = flag_set ''opened'' (entry_of st tid)
            \<and> flag_set ''clicked'' (Some (JDict e)) = flag_set ''clicked'' (entry_of st tid)
            \<and> accepts_events (update_tracking_data tid action ip ua url t st) tid"
  using acc
proof (cases rule: accepts_events_cases)
  case (new_file cid)
  let ?e = "[(''first_seen'', JStr t), (''events'', JList [])]"
  let ?m = "merged action t (event_data action t ip ua url) [] ?e"
  let ?st = "update_tracking_data tid action ip ua url t st"
  have before: "entry_of st tid = None"
    using new_file by (simp add: entry_of_def)
  have fl: "files ?st (data_file_of cid) = Some (Parsed (JDict [(tid, ?m)]))"
    using update_files_new_file [OF new_file, of action ip ua url t] by simp
  have after: "entry_of ?st tid = Some ?m"
    using new_file(1) fl by (simp add: entry_of_def)
  have a: "accepts_events ?st tid"
    by (rule accepts_merged [OF act fl _ new_file(1)]) (simp_all add: new_file(3))
  have n: "events_of None = []" "\<And>k. flag_set k None = False"
    by (simp_all add: events_of_def flag_set_def)
  have s: "\<not> flag_set ''opened'' (Some (JDict ?e))" "\<not> flag_set ''clicked'' (Some (JDict ?e))"
    by (simp_all add: shell_flags)
  show ?thesis
    by (rule exI [of _ ?e]) (simp only: before after n s a simp_thms)
next
  case (new_entry cid d)
  let ?e = "[(''first_seen'', JStr t), (''events'', JList [])]"
  let ?m = "merged action t (event_data action t ip ua url) [] ?e"
  let ?st = "update_tracking_data tid action ip ua url t st"
  have before: "entry_of st tid = None"
    using new_entry by (simp add: entry_of_def)
  have fl: "files ?st (data_file_of cid)
              = Some (Parsed (JDict (AList.update tid ?m (AList.update tid (shell_entry t) d))))"
    using update_files_new_entry [OF new_entry, of action ip ua url t] by simp
  have m: "map_of (AList.update tid ?m (AList.update tid (shell_entry t) d)) tid = Some ?m"
    by (simp add: update_conv')
  have after: "entry_of ?st tid = Some ?m"
    using new_entry(1) fl m by (simp add: entry_of_def)
  have a: "accepts_events ?st tid"
    by (rule accepts_merged [OF act fl m new_entry(1)]) (simp add: new_entry(4))
  have n: "events_of None = []" "\<And>k. flag_set k None = False"
    by (simp_all add: events_of_def flag_set_def)
  have s: "\<not> flag_set ''opened'' (Some (JDict ?e))" "\<not> flag_set ''clicked'' (Some (JDict ?e))"
    by (simp_all add: shell_flags)
  show ?thesis
    by (rule exI [of _ ?e]) (simp only: before after n s a simp_thms)
next
  case (present cid d e evs)
  let ?m = "merged action t (event_data action t ip ua url) evs e"
  let ?st = "update_tracking_data tid action ip ua url t st"
  have before: "entry_of st tid = Some (JDict e)"
    using present by (simp add: entry_of_def)
  have evs: "events_of (Some (JDict e)) = evs"
    using present by (simp add: events_of_def)
  have fl: "files ?st (data_file_of cid) = Some (Parsed (JDict (AList.update tid ?m d)))"
    using update_files_present [OF present, of action ip ua url t] by simp
  have m: "map_of (AList.update tid ?m d) tid = Some ?m"
    by (simp add: update_conv')
  have after: "entry_of ?st tid = Some ?m"
    using present(1) fl m by (simp add: entry_of_def)
  have a: "accepts_events ?st tid"
    by (rule accepts_merged [OF act fl m present(1)]) (simp add: present(5))
  show ?thesis
    by (rule exI [of _ e]) (simp only: before after evs a simp_thms)
qed

lemma update_entry_facts:
  assumes acc: "accepts_events st tid"
    and act: "action = ''opened'' \<or> action = ''clicked''"
  shows "accepts_events (update_tracking_data tid action ip ua url t st) tid"
    and "events_of (entry_of (update_tracking_data tid action ip ua url t st) tid)
           = events_of (entry_of st tid) @ [event_data action t ip ua url]"
    and "flag_set ''opened'' (entry_of (update_tracking_data tid action ip ua url t st) tid)
           = (action = ''opened'' \<or> flag_set ''opened'' (entry_of st tid))"
    and "flag_set ''clicked'' (entry_of (update_tracking_data tid action ip ua url t st) tid)
           = (action = ''clicked'' \<or> flag_set ''clicked'' (entry_of st tid))"
proof -
  let ?st = "update_tracking_data tid action ip ua url t st"
  let ?ev = "event_data action t ip ua url"
  from update_entry_shape [OF acc act, of ip ua url t]
  obtain e where after: "entry_of ?st tid = Some (merged action t ?ev (events_of (entry_of st tid)) e)"
    and fo: "flag_set ''opened'' (Some (JDict e)) = flag_set ''opened'' (entry_of st tid)"
    and fc: "flag_set ''clicked'' (Some (JDict e)) = flag_set ''clicked'' (entry_of st tid)"
    and a: "accepts_events ?st tid"
    by blast
  show "accepts_events ?st tid" by (rule a)
  show "events_of (entry_of ?st tid) = events_of (entry_of st tid) @ [?ev]"
    unfolding after by (rule events_of_merged [OF act])
  have "flag_set ''opened'' (entry_of ?st tid)
          = (''opened'' = action \<or> flag_set ''opened'' (Some (JDict e)))"
    unfolding after by (rule flag_set_merged [OF act]) simp
  then show "flag_set ''opened'' (entry_of ?st tid)
          = (action = ''opened'' \<or> flag_set ''opened'' (entry_of st tid))"
    unfolding fo by (simp add: eq_commute)
  have "flag_set ''clicked'' (entry_of ?st tid)
          = (''clicked'' = action \<or> flag_set ''clicked'' (Some (JDict e)))"
    unfolding after by (rule flag_set_merged [OF act]) simp
  then show "flag_set ''clicked'' (entry_of ?st tid)
          = (action = ''clicked'' \<or> flag_set ''clicked'' (entry_of st tid))"
    unfolding fc by (simp add: eq_commute)
qed

lemma files_track_open:
  assumes "is_valid_tracking_id tid"
  shows "files (snd (track_open tid req st))
           = files (update_tracking_data tid ''opened'' (remote_addr req)
                      (Some (header_or_unknown req)) None (now req)
                      (logged INFO (''Email opened: '' @ tid @ '' | IP: '' @ py_str (remote_addr req)
                                @ '' | Agent: '' @ header_or_unknown req) st))"
  using assms by (simp add: track_open_def Let_def)

lemma disk_track_open [simp]: "disk (snd (track_open tid req st)) = disk st"
  by (simp add: track_open_def Let_def)

lemma snd_answer [simp]:
  "snd (case r of Inl e \<Rightarrow> (Unhandled e, st) | Inr location \<Rightarrow> (Redirect location, st)) = st"
  by (cases r) simp_all

lemma disk_track_click [simp]: "disk (snd (track_click urlparse redirect tid req st)) = disk st"
  by (simp add: track_click_def Let_def)

lemma files_track_click:
  assumes "is_valid_tracking_id tid"
  shows "\<exists>url st0. files st0 = files st \<and> disk st0 = disk st
           \<and> files (snd (track_click urlparse redirect tid req st))
           = files (update_tracking_data tid ''clicked'' (remote_addr req)
                      (Some (header_or_unknown req)) (Some url) (now req) st0)"
proof -
  let ?url0 = "case url_arg req of None \<Rightarrow> DEFAULT_REDIRECT_URL | Some u \<Rightarrow> u"
  show ?thesis
  proof (cases "is_valid_url urlparse ?url0")
    case True
    let ?st1 = "logged INFO (''Link clicked: '' @ tid @ '' | Redirect: '' @ ?url0
                  @ '' | IP: '' @ py_str (remote_addr req) @ '' | Agent: ''
                  @ header_or_unknown req) st"
    have "files ?st1 = files st \<and> disk ?st1 = disk st
           \<and> files (snd (track_click urlparse redirect tid req st))
           = files (update_tracking_data tid ''clicked'' (remote_addr req)
                      (Some (header_or_unknown req)) (Some ?url0) (now req) ?st1)"
      using assms True by (simp add: track_click_def Let_def)
    then show ?thesis by (intro exI)
  next
    case False
    let ?st1 = "logged INFO (''Link clicked: '' @ tid @ '' | Redirect: '' @ DEFAULT_REDIRECT_URL
                  @ '' | IP: '' @ py_str (remote_addr req) @ '' | Agent: ''
                  @ header_or_unknown req)
                  (logged WARNING (''Invalid URL in click request: '' @ ?url0) st)"
    have "files ?st1 = files st \<and> disk ?st1 = disk st
           \<and> files (snd (track_click urlparse redirect tid req st))
           = files (update_tracking_data tid ''clicked'' (remote_addr req)
                      (Some (header_or_unknown req)) (Some DEFAULT_REDIRECT_URL) (now req) ?st1)"
      using assms False by (simp add: track_click_def Let_def)
    then show ?thesis by (intro exI)
  qed
qed

lemma open_step:
  assumes v: "is_valid_tracking_id tid" and acc: "accepts_events st tid"
  shows "accepts_events (snd (track_open tid req st)) tid"
    and "length (events_of (entry_of (snd (track_open tid req st)) tid))
           = Suc (length (events_of (entry_of st tid)))"
    and "flag_set ''opened'' (entry_of (snd (track_open tid req st)) tid)"
    and "flag_set ''clicked'' (entry_of (snd (track_open tid req st)) tid)
           = flag_set ''clicked'' (entry_of st tid)"
proof -
  let ?st1 = "logged INFO (''Email opened: '' @ tid @ '' | IP: '' @ py_str (remote_addr req)
                                @ '' | Agent: '' @ header_or_unknown req) st"
  let ?u = "update_tracking_data tid ''opened'' (remote_addr req)
                      (Some (header_or_unknown req)) None (now req) ?st1"
  have f: "files (snd (track_open tid req st)) = files ?u"
    by (rule files_track_open [OF v])
  have e: "entry_of (snd (track_open tid req st)) tid = entry_of ?u tid"
    by (rule entry_of_files [OF f])
  have a: "accepts_events (snd (track_open tid req st)) tid = accepts_events ?u tid"
    by (rule accepts_events_files [OF f]) simp
  have e1: "entry_of ?st1 tid = entry_of st tid"
    by (rule entry_of_files) simp
  have acc1: "accepts_events ?st1 tid"
    using acc accepts_events_files [of ?st1 st tid] by simp
  have act: "''opened'' = ''opened'' \<or> ''opened'' = ''clicked''" by simp
  note facts = update_entry_facts [OF acc1 act, of "remote_addr req"
      "Some (header_or_unknown req)" None "now req"]
  show "accepts_events (snd (track_open tid req st)) tid"
    unfolding a by (rule facts(1))
  show "length (events_of (entry_of (snd (track_open tid req st)) tid))
           = Suc (length (events_of (entry_of st tid)))"
    unfolding e facts(2) e1 by simp
  show "flag_set ''opened'' (entry_of (snd (track_open tid req st)) tid)"
    unfolding e facts(3) by simp
  show "flag_set ''clicked'' (entry_of (snd (track_open tid req st)) tid)
           = flag_set ''clicked'' (entry_of st tid)"
    unfolding e facts(4) e1 by simp
qed

lemma click_step:
  assumes v: "is_valid_tracking_id tid" and acc: "accepts_events st tid"
  shows "accepts_events (snd (track_click urlparse redirect tid req st)) tid"
    and "length (events_of (entry_of (snd (track_click urlparse redirect tid req st)) tid))
           = Suc (length (events_of (entry_of st tid)))"
    and "flag_set ''clicked'' (entry_of (snd (track_click urlparse redirect tid req st)) tid)"
    and "flag_set ''opened'' (entry_of (snd (track_click urlparse redirect tid req st)) tid)
           = flag_set ''opened'' (entry_of st tid)"
proof -
  from files_track_click [OF v, of st urlparse redirect req]
  obtain url st0 where f0: "files st0 = files st" and d0: "disk st0 = disk st"
    and f: "files (snd (track_click urlparse redirect tid req st))
           = files (update_tracking_data tid ''clicked'' (remote_addr req)
                      (Some (header_or_unknown req)) (Some url) (now req) st0)"
    by blast
  let ?u = "update_tracking_data tid ''clicked'' (remote_addr req)
                      (Some (header_or_unknown req)) (Some url) (now req) st0"
  have e: "entry_of (snd (track_click urlparse redirect tid req st)) tid = entry_of ?u tid"
    by (rule entry_of_files [OF f])
  have a: "accepts_events (snd (track_click urlparse redirect tid req st)) tid
             = accepts_events ?u tid"
    by (rule accepts_events_files [OF f]) (simp add: d0)
  have e1: "entry_of st0 tid = entry_of st tid"
    by (rule entry_of_files [OF f0])
  have acc1: "accepts_events st0 tid"
    using acc accepts_events_files [OF f0 d0, of tid] by simp
  have act: "''clicked'' = ''opened'' \<or> ''clicked'' = ''clicked''" by simp
  note facts = update_entry_facts [OF acc1 act, of "remote_addr req"
      "Some (header_or_unknown req)" "Some url" "now req"]
  show "accepts_events (snd (track_click urlparse redirect tid req st)) tid"
    unfolding a by (rule facts(1))
  show "length (events_of (entry_of (snd (track_click urlparse redirect tid req st)) tid))
           = Suc (length (events_of (entry_of st tid)))"
    unfolding e facts(2) e1 by simp
  show "flag_set ''clicked'' (entry_of (snd (track_click urlparse redirect tid req st)) tid)"
    unfolding e facts(4) by simp
  show "flag_set ''opened'' (entry_of (snd (track_click urlparse redirect tid req st)) tid)
           = flag_set ''opened'' (entry_of st tid)"
    unfolding e facts(3) e1 by simp
qed

lemma serve_on_accepting_store:
  assumes v: "is_valid_tracking_id tid" and acc: "accepts_events st tid"
  shows "flag_set ''opened'' (entry_of (serve urlparse redirect tid hs st) tid)
           = (flag_set ''opened'' (entry_of st tid) \<or> list_ex is_open hs)
       \<and> flag_set ''clicked'' (entry_of (serve urlparse redirect tid hs st) tid)
           = (flag_set ''clicked'' (entry_of st tid) \<or> list_ex is_click hs)
       \<and> length (events_of (entry_of (serve urlparse redirect tid hs st) tid))
           = length (events_of (entry_of st tid)) + length hs"
  using acc
proof (induction hs arbitrary: st)
  case Nil
  show ?case by simp
next
  case (Cons h hs)
  show ?case
  proof (cases h)
    case (Open req)
    note s = open_step [OF v Cons.prems, of req]
    from Cons.IH [OF s(1)] show ?thesis
      unfolding Open by (simp add: s(2) s(3) s(4))
  next
    case (Click req)
    note s = click_step [OF v Cons.prems, of urlparse redirect req]
    from Cons.IH [OF s(1)] show ?thesis
      unfolding Click by (simp add: s(2) s(3) s(4))
  qed
qed

lemma flag_set_entry:
  assumes "flag_set key (entry_of st tid)"
  obtains cid d e where "parse_campaign_id tid = Inr cid"
    and "files st (data_file_of cid) = Some (Parsed (JDict d))"
    and "map_of d tid = Some (JDict e)"
proof -
  obtain cid where p: "parse_campaign_id tid = Inr cid"
    using parse_campaign_id_total by blast
  from assms obtain j where j: "entry_of st tid = Some j"
    by (cases "entry_of st tid") (simp_all add: flag_set_def)
  with assms obtain e where e: "j = JDict e"
    by (cases j) (simp_all add: flag_set_def)
  from j p obtain c where c: "files st (data_file_of cid) = Some c"
    by (cases "files st (data_file_of cid)") (simp_all add: entry_of_def)
  from j p c obtain t where t: "c = Parsed t"
    by (cases c) (simp_all add: entry_of_def)
  from j p c t obtain d where d: "t = JDict d"
    by (cases t) (simp_all add: entry_of_def)
  from j p c t d e have "map_of d tid = Some (JDict e)"
    by (simp add: entry_of_def)
  with p c t d that show thesis by simp
qed

lemma update_keeps_flag:
  assumes fl: "flag_set key (entry_of st tid)"
    and key: "key = ''opened'' \<or> key = ''clicked''"
    and act: "action = ''opened'' \<or> action = ''clicked''"
    and nt: "disk st (file_of tid) \<noteq> Torn"
  shows "flag_set key (entry_of (update_tracking_data tid action ip ua url t st) tid)"
proof -
  from fl obtain cid d e where p: "parse_campaign_id tid = Inr cid"
    and f: "files st (data_file_of cid) = Some (Parsed (JDict d))"
    and m: "map_of d tid = Some (JDict e)"
    by (rule flag_set_entry)
  from nt p have nt': "disk st (data_file_of cid) \<noteq> Torn"
    by (simp add: file_of_def)
  have same: "files (update_tracking_data tid action ip ua url t st) = files st \<Longrightarrow> ?thesis"
    using entry_of_files [of "update_tracking_data tid action ip ua url t st" st tid] fl
    by simp
  show ?thesis
  proof (cases "disk st (data_file_of cid)")
    case Torn
    with nt' show ?thesis by simp
  next
    case Refused
    show ?thesis by (rule same) (rule update_files_refused [OF p Refused])
  next
    case Written
    show ?thesis
    proof (cases "accepts_events st tid")
      case True
      note facts = update_entry_facts [OF True act, of ip ua url t]
      from key fl show ?thesis
        by (auto simp: facts(3) facts(4))
    next
      case False
      with p f m Written have ne: "\<And>evs. map_of e ''events'' \<noteq> Some (JList evs)"
        by (auto simp: accepts_events_def)
      have "\<exists>err. merge_event (JDict d) tid action t ip ua url = Inl err"
      proof (cases "map_of e ''events''")
        case None
        with m show ?thesis by (simp add: merge_event_def)
      next
        case (Some x)
        with ne [of "case x of JList evs \<Rightarrow> evs"] m show ?thesis
          by (cases x) (simp_all add: merge_event_def)
      qed
      then obtain err where "merge_event (JDict d) tid action t ip ua url = Inl err" by blast
      from update_files_merge_failed [OF p f this] show ?thesis by (rule same)
    qed
  qed
qed

lemma open_keeps_flag:
  assumes fl: "flag_set key (entry_of st tid)"
    and key: "key = ''opened'' \<or> key = ''clicked''"
    and nt: "disk st (file_of tid) \<noteq> Torn"
  shows "flag_set key (entry_of (snd (track_open tid req st)) tid)"
proof (cases "is_valid_tracking_id tid")
  case False
  then have "files (snd (track_open tid req st)) = files st"
    by (simp add: track_open_def)
  from entry_of_files [OF this] fl show ?thesis by simp
next
  case True
  let ?st1 = "logged INFO (''Email opened: '' @ tid @ '' | IP: '' @ py_str (remote_addr req)
                                @ '' | Agent: '' @ header_or_unknown req) st"
  have "entry_of ?st1 tid = entry_of st tid"
    by (rule entry_of_files) simp
  with fl have 1: "flag_set key (entry_of ?st1 tid)" by simp
  from nt have 2: "disk ?st1 (file_of tid) \<noteq> Torn" by simp
  from update_keeps_flag [OF 1 key _ 2, of "''opened''"]
  show ?thesis
    unfolding entry_of_files [OF files_track_open [OF True]] by simp
qed

lemma click_keeps_flag:
  assumes fl: "flag_set key (entry_of st tid)"
    and key: "key = ''opened'' \<or> key = ''clicked''"
    and nt: "disk st (file_of tid) \<noteq> Torn"
  shows "flag_set key (entry_of (snd (track_click urlparse redirect tid req st)) tid)"
proof (cases "is_valid_tracking_id tid")
  case False
  then have "files (snd (track_click urlparse redirect tid req st)) = files st"
    by (simp add: track_click_def)
  from entry_of_files [OF this] fl show ?thesis by simp
next
  case True
  from files_track_click [OF True, of st urlparse redirect req]
  obtain url st0 where f0: "files st0 = files st" and d0: "disk st0 = disk st"
    and f: "files (snd (track_click urlparse redirect tid req st))
           = files (update_tracking_data tid ''clicked'' (remote_addr req)
                      (Some (header_or_unknown req)) (Some url) (now req) st0)"
    by blast
  from fl have 1: "flag_set key (entry_of st0 tid)"
    unfolding entry_of_files [OF f0] .
  from nt d0 have 2: "disk st0 (file_of tid) \<noteq> Torn" by simp
  from update_keeps_flag [OF 1 key _ 2, of "''clicked''"]
  show ?thesis
    unfolding entry_of_files [OF f] by simp
qed

lemma disk_serve [simp]: "disk (serve urlparse redirect tid hs st) = disk st"
proof (induction hs arbitrary: st)
  case Nil
  show ?case by simp
next
  case (Cons h hs)
  then show ?case by (cases h) simp_all
qed

lemma serve_keeps_flag:
  assumes key: "key = ''opened'' \<or> key = ''clicked''"
  shows "flag_set key (entry_of st tid) \<Longrightarrow> disk st (file_of tid) \<noteq> Torn \<Longrightarrow>
         flag_set key (entry_of (serve urlparse redirect tid hs st) tid)"
proof (induction hs arbitrary: st)
  case Nil
  then show ?case by simp
next
  case (Cons h hs)
  show ?case
  proof (cases h)
    case (Open req)
    from Cons.prems(2) have "disk (snd (track_open tid req st)) (file_of tid) \<noteq> Torn"
      by simp
    from Cons.IH [OF open_keeps_flag [OF Cons.prems(1) key Cons.prems(2), of req] this]
    show ?thesis unfolding Open by simp
  next
    case (Click req)
    from Cons.prems(2)
    have "disk (snd (track_click urlparse redirect tid req st)) (file_of tid) \<noteq> Torn"
      by simp
    from Cons.IH [OF click_keeps_flag [OF Cons.prems(1) key Cons.prems(2),
          of urlparse redirect req] this]
    show ?thesis unfolding Click by simp
  qed
qed

text \<open>
  C2 (amended). After any sequence of pixel and click requests on one tracking id, a
  flag \<^verbatim>\<open>opened\<close> or \<^verbatim>\<open>clicked\<close> that was set is still set, on any store, as long as
  no write to the file of the id is torn (opened, and so emptied, and then failed).
  When moreover the id is valid and the store accepts events for it (writes to the file
  go through, and the file is absent or holds an object in which the entry of the id,
  if present, is an object with an \<^verbatim>\<open>events\<close> list), \<^verbatim>\<open>opened\<close> is set afterwards
  exactly when it was set before or the sequence has a pixel request, likewise
  \<^verbatim>\<open>clicked\<close> with click requests, and the events list has grown by one element per
  request. So on such a store \<^verbatim>\<open>opened\<close> is true after the first pixel request and
  after every further one.
\<close>

theorem flags_monotone_events_grow:
  "(disk st (file_of tid) \<noteq> Torn \<and> flag_set ''opened'' (entry_of st tid) \<longrightarrow>
      flag_set ''opened'' (entry_of (serve urlparse redirect tid hs st) tid))
   \<and> (disk st (file_of tid) \<noteq> Torn \<and> flag_set ''clicked'' (entry_of st tid) \<longrightarrow>
      flag_set ''clicked'' (entry_of (serve urlparse redirect tid hs st) tid))
   \<and> (is_valid_tracking_id tid \<and> accepts_events st tid \<longrightarrow>
        flag_set ''opened'' (entry_of (serve urlparse redirect tid hs st) tid)
           = (flag_set ''opened'' (entry_of st tid) \<or> list_ex is_open hs)
      \<and> flag_set ''clicked'' (entry_of (serve urlparse redirect tid hs st) tid)
           = (flag_set ''clicked'' (entry_of st tid) \<or> list_ex is_click hs)
      \<and> length (events_of (entry_of (serve urlparse redirect tid hs st) tid))
           = length (events_of (entry_of st tid)) + length hs)"
proof (intro conjI impI)
  assume a: "disk st (file_of tid) \<noteq> Torn \<and> flag_set ''opened'' (entry_of st tid)"
  have k: "''opened'' = ''opened'' \<or> ''opened'' = ''clicked''" by simp
  from a show "flag_set ''opened'' (entry_of (serve urlparse redirect tid hs st) tid)"
    using serve_keeps_flag [OF k, of st tid urlparse redirect hs] by blast
next
  assume a: "disk st (file_of tid) \<noteq> Torn \<and> flag_set ''clicked'' (entry_of st tid)"
  have k: "''clicked'' = ''opened'' \<or> ''clicked'' = ''clicked''" by simp
  from a show "flag_set ''clicked'' (entry_of (serve urlparse redirect tid hs st) tid)"
    using serve_keeps_flag [OF k, of st tid urlparse redirect hs] by blast
next
  assume a: "is_valid_tracking_id tid \<and> accepts_events st tid"
  note c = serve_on_accepting_store [of tid st urlparse redirect hs]
  from a c show "flag_set ''opened'' (entry_of (serve urlparse redirect tid hs st) tid)
           = (flag_set ''opened'' (entry_of st tid) \<or> list_ex is_open hs)" by blast
  from a c show "flag_set ''clicked'' (entry_of (serve urlparse redirect tid hs st) tid)
           = (flag_set ''clicked'' (entry_of st tid) \<or> list_ex is_click hs)" by blast
  from a c show "length (events_of (entry_of (serve urlparse redirect tid hs st) tid))
           = length (events_of (entry_of st tid)) + length hs" by blast
qed

text \<open>
  Two further requests on a lead that has one event and both flags: the flags stay
  set and the lead has three events. A first pixel request on an empty data directory
  sets \<^verbatim>\<open>opened\<close>.
\<close>

lemma example_id_valid: "is_valid_tracking_id ''20250101000000_7''"
  by (simp add: is_valid_tracking_id_def VALID_TRACKING_ID_PATTERN_def alnum_def underscore_def)

lemma example_id_campaign: "parse_campaign_id ''20250101000000_7'' = Inr ''20250101000000''"
  by (simp add: parse_campaign_id_def)

theorem flags_monotone_events_grow_witness:
  "disk engaged_server (file_of ''20250101000000_7'') \<noteq> Torn
   \<and> flag_set ''opened'' (entry_of engaged_server ''20250101000000_7'')
   \<and> flag_set ''clicked'' (entry_of engaged_server ''20250101000000_7'')
   \<and> is_valid_tracking_id ''20250101000000_7''
   \<and> accepts_events engaged_server ''20250101000000_7''
   \<and> flag_set ''opened'' (entry_of (serve urlparse_sample redirect_sample ''20250101000000_7''
         [Open (client ''2025-01-02T09:00:00''), Click (client ''2025-01-02T09:05:00'')]
         engaged_server) ''20250101000000_7'')
   \<and> flag_set ''clicked'' (entry_of (serve urlparse_sample redirect_sample ''20250101000000_7''
         [Open (client ''2025-01-02T09:00:00''), Click (client ''2025-01-02T09:05:00'')]
         engaged_server) ''20250101000000_7'')
   \<and> length (events_of (entry_of (serve urlparse_sample redirect_sample ''20250101000000_7''
         [Open (client ''2025-01-02T09:00:00''), Click (client ''2025-01-02T09:05:00'')]
         engaged_server) ''20250101000000_7'')) = 3"
proof -
  let ?tid = "''20250101000000_7''"
  note h1 = example_id_valid and p = example_id_campaign
  have w: "disk engaged_server (file_of ?tid) \<noteq> Torn"
    by (simp add: engaged_server_def writes_through_def)
  have h2: "accepts_events engaged_server ?tid"
    by (simp add: accepts_events_def p engaged_server_def writes_through_def)
  have e: "length (events_of (entry_of engaged_server ?tid)) = 1"
    by (simp add: entry_of_def p engaged_server_def events_of_def)
  have o: "flag_set ''opened'' (entry_of engaged_server ?tid)"
    by (simp add: entry_of_def p engaged_server_def flag_set_def)
  have c: "flag_set ''clicked'' (entry_of engaged_server ?tid)"
    by (simp add: entry_of_def p engaged_server_def flag_set_def)
  from flags_monotone_events_grow [of engaged_server ?tid urlparse_sample redirect_sample
      "[Open (client ''2025-01-02T09:00:00''), Click (client ''2025-01-02T09:05:00'')]"]
  show ?thesis using h1 h2 o c w by (simp add: e)
qed

lemma first_open_sets_flag:
  "flag_set ''opened'' (entry_of (serve urlparse_sample redirect_sample ''20250101000000_7''
         [Open (client ''2025-01-02T09:00:00'')] fresh_server) ''20250101000000_7'')"
proof -
  have h2: "accepts_events fresh_server ''20250101000000_7''"
    by (simp add: accepts_events_def example_id_campaign fresh_server_def writes_through_def)
  from serve_on_accepting_store [OF example_id_valid h2, of urlparse_sample redirect_sample
      "[Open (client ''2025-01-02T09:00:00'')]"]
  show ?thesis by simp
qed

text \<open>
  The claim as stated, for any initial store, fails in three ways. On a store whose
  entry for the id has no \<^verbatim>\<open>events\<close> key the subscript raises \<^verbatim>\<open>KeyError\<close> inside the
  \<^verbatim>\<open>try\<close>, and the pixel request leaves \<^verbatim>\<open>opened\<close> false. On an empty data directory
  where the operating system refuses to open the file for writing, the pixel request
  records nothing. And a write that is torn after the file was opened leaves a file that
  does not parse, so that a flag that was set is set no more.
\<close>

theorem open_on_seed_entry_counterexample:
  "is_valid_tracking_id ''20250101000000_7''
   \<and> \<not> flag_set ''opened'' (entry_of (snd (track_open ''20250101000000_7''
           (client ''2025-01-02T09:00:00'') seeded_server)) ''20250101000000_7'')
   \<and> events_of (entry_of (snd (track_open ''20250101000000_7''
           (client ''2025-01-02T09:00:00'') seeded_server)) ''20250101000000_7'') = []
   \<and> \<not> flag_set ''opened'' (entry_of (snd (track_open ''20250101000000_7''
           (client ''2025-01-02T09:00:00'') locked_server)) ''20250101000000_7'')
   \<and> flag_set ''opened'' (entry_of (engaged_server\<lparr>disk := tearing\<rparr>) ''20250101000000_7'')
   \<and> \<not> flag_set ''opened'' (entry_of (snd (track_open ''20250101000000_7''
           (client ''2025-01-02T09:00:00'') (engaged_server\<lparr>disk := tearing\<rparr>)))
           ''20250101000000_7'')"
proof -
  let ?tid = "''20250101000000_7''"
  let ?req = "client ''2025-01-02T09:00:00''"
  note h1 = example_id_valid and p = example_id_campaign
  have m: "merge_event (JDict [(?tid, seed_entry)]) ?tid ''opened'' t ip ua url = Inl KeyError"
    for t ip ua url
    by (simp add: merge_event_def seed_entry_def Let_def)
  have f: "files (snd (track_open ?tid ?req seeded_server)) = files seeded_server"
  proof -
    have "files (update_tracking_data ?tid ''opened'' ip ua url t (logged lv msg seeded_server))
            = files (logged lv msg seeded_server)" for ip ua url t lv msg
      by (rule update_files_merge_failed [OF p _ m]) (simp add: seeded_server_def)
    then show ?thesis
      unfolding files_track_open [OF h1] by simp
  qed
  have e: "entry_of seeded_server ?tid = Some seed_entry"
    by (simp add: entry_of_def p seeded_server_def)
  have s: "\<not> flag_set ''opened'' (Some seed_entry)" "events_of (Some seed_entry) = []"
    by (simp_all add: flag_set_def events_of_def seed_entry_def)
  have fl: "files (snd (track_open ?tid ?req locked_server)) = files locked_server"
  proof -
    have "files (update_tracking_data ?tid ''opened'' ip ua url t (logged lv msg locked_server))
            = files (logged lv msg locked_server)" for ip ua url t lv msg
      by (rule update_files_refused [OF p]) (simp add: locked_server_def refusing_def)
    then show ?thesis
      unfolding files_track_open [OF h1] by simp
  qed
  have el: "entry_of locked_server ?tid = None"
    by (simp add: entry_of_def p locked_server_def)
  have n: "\<not> flag_set ''opened'' None" by (simp add: flag_set_def)
  let ?torn = "engaged_server\<lparr>disk := tearing\<rparr>"
  have et: "flag_set ''opened'' (entry_of ?torn ?tid)"
    by (simp add: entry_of_def p engaged_server_def flag_set_def)
  have ft: "files (snd (track_open ?tid ?req ?torn)) (data_file_of ''20250101000000'')
              = Some Unparseable"
    unfolding files_track_open [OF h1]
    by (simp add: update_tracking_data_def p Let_def engaged_server_def load_file_def
        merge_event_def dump_json_def tearing_def logged_def)
  have nt: "\<not> flag_set ''opened'' (entry_of (snd (track_open ?tid ?req ?torn)) ?tid)"
    by (simp add: entry_of_def p ft flag_set_def)
  show ?thesis
    using h1 s n et nt by (simp add: entry_of_files [OF f] e entry_of_files [OF fl] el)
qed

text \<open>
  C6. A pixel request whose identifier fails validation is answered with 400; the
  files are unchanged, and the only effect is the warning given to the logger.
\<close>

theorem invalid_id_rejected:
  assumes "\<not> is_valid_tracking_id tracking_id"
  shows "track_open tracking_id req st
           = (Abort 400, logged WARNING (''Invalid tracking ID format: '' @ tracking_id) st)
         \<and> status_code (fst (track_open tracking_id req st)) = 400
         \<and> files (snd (track_open tracking_id req st)) = files st
         \<and> pixel_present (snd (track_open tracking_id req st)) = pixel_present st"
  using assms by (simp add: track_open_def)

theorem invalid_id_rejected_witness:
  "\<not> is_valid_tracking_id ''../etc/passwd''
   \<and> (track_open ''../etc/passwd'' (client ''2025-01-02T09:00:00'') fresh_server
       = (Abort 400,
          logged WARNING (''Invalid tracking ID format: '' @ ''../etc/passwd'') fresh_server)
   \<and> status_code (fst (track_open ''../etc/passwd'' (client ''2025-01-02T09:00:00'')
         fresh_server)) = 400
   \<and> files (snd (track_open ''../etc/passwd'' (client ''2025-01-02T09:00:00'') fresh_server))
       = files fresh_server
   \<and> pixel_present (snd (track_open ''../etc/passwd'' (client ''2025-01-02T09:00:00'')
         fresh_server)) = pixel_present fresh_server)"
proof -
  have h: "\<not> is_valid_tracking_id ''../etc/passwd''"
    by (simp add: is_valid_tracking_id_def VALID_TRACKING_ID_PATTERN_def alnum_def underscore_def)
  show ?thesis
    by (rule conjI [OF h invalid_id_rejected [OF h]])
qed

text \<open>
  C7. The claim: a click request with a valid identifier is always answered with a
  redirect, never with an error that the \<^verbatim>\<open>url\<close> argument causes. The handler gives
  \<^verbatim>\<open>redirect\<close> every URL that passes \<^verbatim>\<open>is_valid_url\<close>, and catches nothing: when
  \<^verbatim>\<open>redirect\<close> raises on such a URL the request ends in 500, after the click was
  recorded. The witness is a URL with a line break, which \<^verbatim>\<open>urlparse\<close> removes before
  it splits and which \<^verbatim>\<open>redirect\<close> refuses to put into a header.
\<close>

theorem click_on_accepted_url_fails:
  assumes "is_valid_tracking_id tracking_id"
    and "url_arg req = Some u"
    and "is_valid_url urlparse u"
    and "redirect u = Inl e"
  shows "fst (track_click urlparse redirect tracking_id req st) = Unhandled e
         \<and> status_code (fst (track_click urlparse redirect tracking_id req st)) = 500"
  using assms by (simp add: track_click_def Let_def)

theorem click_on_accepted_url_fails_witness:
  "is_valid_tracking_id ''20250101000000_7''
   \<and> url_arg (clicking broken_url ''2025-01-02T09:00:00'') = Some broken_url
   \<and> is_valid_url urlparse_sample broken_url
   \<and> redirect_sample broken_url = Inl ValueError
   \<and> fst (track_click urlparse_sample redirect_sample ''20250101000000_7''
            (clicking broken_url ''2025-01-02T09:00:00'') fresh_server) = Unhandled ValueError
   \<and> status_code (fst (track_click urlparse_sample redirect_sample ''20250101000000_7''
            (clicking broken_url ''2025-01-02T09:00:00'') fresh_server)) = 500"
proof -
  have h2: "url_arg (clicking broken_url ''2025-01-02T09:00:00'') = Some broken_url"
    by (simp add: clicking_def)
  have h3: "is_valid_url urlparse_sample broken_url"
    by (simp add: is_valid_url_def urlparse_sample_def broken_url_def)
  have h4: "redirect_sample broken_url = Inl ValueError"
    by (simp add: redirect_sample_def broken_url_def)
  from click_on_accepted_url_fails [where redirect = redirect_sample and st = fresh_server,
      OF example_id_valid h2 h3 h4]
  show ?thesis using example_id_valid h2 h3 h4 by simp
qed

text \<open>
  Where \<^verbatim>\<open>redirect\<close> returns, the answer is the redirect to the \<^verbatim>\<open>url\<close> argument when
  that is given and passes \<^verbatim>\<open>is_valid_url\<close>, and to the default URL otherwise. The
  check looks at the network location, not at the host: \<^verbatim>\<open>http://:80\<close> has the
  location \<^verbatim>\<open>:80\<close> and no host, and is not replaced by the default.
\<close>

lemma click_answer:
  assumes "is_valid_tracking_id tracking_id"
  shows "fst (track_click urlparse redirect tracking_id req st)
           = (case redirect (resolved_url urlparse (url_arg req)) of
                Inl e \<Rightarrow> Unhandled e
              | Inr location \<Rightarrow> Redirect location)"
proof (cases "url_arg req")
  case None
  with assms show ?thesis
    by (cases "redirect DEFAULT_REDIRECT_URL")
      (simp_all add: track_click_def resolved_url_def Let_def)
next
  case (Some u)
  with assms show ?thesis
    by (cases "redirect u"; cases "redirect DEFAULT_REDIRECT_URL")
      (simp_all add: track_click_def resolved_url_def Let_def)
qed

lemma click_without_host_not_replaced:
  "fst (track_click urlparse_sample redirect_sample ''20250101000000_7''
         (clicking ''http://:80'' ''2025-01-02T09:00:00'') fresh_server) = Redirect ''http://:80''"
proof -
  have "resolved_url urlparse_sample (url_arg (clicking ''http://:80'' ''2025-01-02T09:00:00''))
          = ''http://:80''"
    by (simp add: resolved_url_def clicking_def is_valid_url_def urlparse_sample_def
        broken_url_def)
  then show ?thesis
    unfolding click_answer [OF example_id_valid] by (simp add: redirect_sample_def)
qed





section \<open>Properties of the statistics\<close>

lemma count_flag_Inr:
  "count_flag key js = Inr n \<Longrightarrow> n = length (filter (\<lambda>j. flag_set key (Some j)) js)"
proof (induction js arbitrary: n)
  case Nil
  then show ?case by simp
next
  case (Cons j js)
  from Cons.prems obtain e where j: "j = JDict e"
    by (cases j) (simp_all add: get_flag_def)
  from Cons.prems j obtain m where m: "count_flag key js = Inr m"
    by (cases "count_flag key js") (simp_all add: get_flag_def)
  from Cons.IH [OF m] Cons.prems j m show ?case
    by (auto simp: get_flag_def flag_set_def split: option.splits)
qed

lemma count_flag_dicts:
  "list_all is_dict js \<Longrightarrow> count_flag key js = Inr (length (filter (\<lambda>j. flag_set key (Some j)) js))"
proof (induction js)
  case Nil
  show ?case by simp
next
  case (Cons j js)
  from Cons.prems obtain e where j: "j = JDict e"
    by (cases j) (simp_all add: is_dict_def)
  from Cons show ?case
    by (auto simp: j get_flag_def flag_set_def split: option.splits)
qed

lemma flag_set_has_key: "flag_set key (Some j) \<Longrightarrow> has_key key j"
  by (auto simp: flag_set_def has_key_def split: json.splits option.splits)

lemma filter_flag_le:
  "length (filter (\<lambda>j. flag_set key (Some j)) js) \<le> length (filter (has_key key) js)"
  by (induction js) (auto dest: flag_set_has_key)

lemma rate_zero_part: "rate 0 whole = 0"
  by (simp add: rate_def true_div_def nearest_double_def shifted_def nearest_quotient_def)

lemma rate_zero_whole: "rate part 0 = 0"
  by (simp add: rate_def)

subsection \<open>Accuracy of the floating-point operations\<close>

text \<open>
  Each operation of the model returns a float within the relative error \<open>2 ^ -53\<close> of
  its exact result, and \<^verbatim>\<open>round(x, 2)\<close> moves \<open>x\<close> by at most 0.005 before that.
\<close>

lemma bit_length_bounds:
  "0 < n \<Longrightarrow> 2 ^ (bit_length n - 1) \<le> n \<and> n < 2 ^ bit_length n"
proof (induction n rule: bit_length.induct)
  case (1 n)
  show ?case
  proof (cases "n div 2 = 0")
    case True
    with 1 have "n = 1" by presburger
    then show ?thesis by (simp add: bit_length.simps)
  next
    case False
    then have p: "0 < n div 2" by simp
    from 1 False have IH: "2 ^ (bit_length (n div 2) - 1) \<le> n div 2 \<and> n div 2 < 2 ^ bit_length (n div 2)"
      by simp
    have b: "bit_length n = Suc (bit_length (n div 2))" using 1 by (subst bit_length.simps) simp
    have pos: "0 < bit_length (n div 2)" using p by (subst bit_length.simps) simp
    then obtain m where m: "bit_length (n div 2) = Suc m" by (cases "bit_length (n div 2)") auto
    from IH m have "2 ^ m \<le> n div 2" "n div 2 < 2 ^ Suc m" by simp_all
    then have "2 * 2 ^ m \<le> n" "n < 2 * 2 ^ Suc m" by presburger+
    then show ?thesis by (simp add: b m)
  qed
qed

lemma nearest_quotient_error:
  assumes "0 < d"
  shows "\<bar>of_nat (nearest_quotient n d) - (of_nat n / of_nat d :: rat)\<bar> \<le> 1 / 2"
proof -
  define q where "q = n div d"
  define r where "r = n mod d"
  have n: "n = q * d + r" by (simp add: q_def r_def)
  have rd: "r < d" using assms by (simp add: r_def)
  have dpos: "(0::rat) < of_nat d" using assms by simp
  have frac: "(of_nat n / of_nat d :: rat) = of_nat q + of_nat r / of_nat d"
    using dpos by (simp add: n field_simps)
  consider "2 * r < d" | "d < 2 * r" | "2 * r = d" by linarith
  then show ?thesis
  proof cases
    case 1
    then have nq: "nearest_quotient n d = q" by (simp add: nearest_quotient_def q_def r_def Let_def)
    from 1 have "(2 * of_nat r :: rat) \<le> of_nat d" by (metis of_nat_mult of_nat_numeral of_nat_le_iff less_imp_le)
    then have "(of_nat r / of_nat d :: rat) \<le> 1 / 2" using dpos by (simp add: field_simps)
    moreover have "(0::rat) \<le> of_nat r / of_nat d" by simp
    ultimately show ?thesis unfolding nq frac by simp
  next
    case 2
    then have nq: "nearest_quotient n d = q + 1" by (simp add: nearest_quotient_def q_def r_def Let_def)
    from 2 have "(of_nat d :: rat) \<le> 2 * of_nat r" by (metis of_nat_mult of_nat_numeral of_nat_le_iff less_imp_le)
    then have "(1 / 2 :: rat) \<le> of_nat r / of_nat d" using dpos by (simp add: field_simps)
    moreover have "(of_nat r / of_nat d :: rat) \<le> 1" using rd dpos by (simp add: field_simps)
    ultimately show ?thesis unfolding nq frac by simp
  next
    case 3
    then have "(of_nat d :: rat) = 2 * of_nat r" by (metis of_nat_mult of_nat_numeral)
    then have h: "(of_nat r / of_nat d :: rat) = 1 / 2" using dpos by (simp add: field_simps)
    from 3 have "nearest_quotient n d = q \<or> nearest_quotient n d = q + 1"
      by (simp add: nearest_quotient_def q_def r_def Let_def)
    then show ?thesis unfolding frac h by auto
  qed
qed


lemma shifted_pos: "0 < n \<Longrightarrow> 0 < shifted n k"
  by (simp add: shifted_def)

lemma shifted_ratio:
  assumes "0 < d"
  shows "(of_nat (shifted n (- k)) / of_nat (shifted d k) :: rat)
           = of_nat n / of_nat d * 2 powi (- k)"
proof (cases "0 \<le> k")
  case True
  then have "nat (- k) = 0" by simp
  with True show ?thesis
    by (simp add: shifted_def power_int_def field_simps)
next
  case False
  then have "nat k = 0" by simp
  with False show ?thesis
    by (simp add: shifted_def power_int_def field_simps)
qed

lemma powi_cancel: "(x::rat) * 2 powi (- k) * 2 powi k = x"
  by (simp add: power_int_minus mult.assoc)

lemma exponent_below:
  assumes n: "0 < n" and d: "0 < d"
  defines "e0 \<equiv> int (bit_length n) - int (bit_length d)"
  defines "e \<equiv> (if shifted d e0 \<le> shifted n (- e0) then e0 else e0 - 1)"
  shows "(2::rat) powi e \<le> of_nat n / of_nat d"
proof (cases "shifted d e0 \<le> shifted n (- e0)")
  case True
  then have "(of_nat (shifted d e0) :: rat) \<le> of_nat (shifted n (- e0))"
    by (simp only: of_nat_le_iff)
  moreover have "(0::rat) < of_nat (shifted d e0)" using shifted_pos [OF d] by simp
  ultimately have "(1::rat) \<le> of_nat (shifted n (- e0)) / of_nat (shifted d e0)"
    by (simp add: field_simps)
  then have "(1::rat) \<le> of_nat n / of_nat d * 2 powi (- e0)"
    by (simp only: shifted_ratio [OF d])
  then have "1 * (2::rat) powi e0 \<le> of_nat n / of_nat d * 2 powi (- e0) * 2 powi e0"
    by (intro mult_right_mono) simp_all
  then have "(2::rat) powi e0 \<le> of_nat n / of_nat d"
    by (simp only: powi_cancel mult_1)
  with True show ?thesis by (simp add: e_def)
next
  case False
  from bit_length_bounds [OF n] have ln: "2 ^ (bit_length n - 1) \<le> n" by simp
  from bit_length_bounds [OF d] have ld: "d < 2 ^ bit_length d" by simp
  have bn: "0 < bit_length n" using n by (subst bit_length.simps) simp
  from ln have "(2::rat) ^ (bit_length n - 1) \<le> of_nat n"
    by (metis of_nat_le_iff of_nat_numeral of_nat_power)
  moreover from ld have "(of_nat d :: rat) \<le> 2 ^ bit_length d"
    by (metis of_nat_less_iff of_nat_numeral of_nat_power less_imp_le)
  moreover have "(0::rat) < of_nat d" using d by simp
  ultimately have "(2::rat) ^ (bit_length n - 1) / 2 ^ bit_length d \<le> of_nat n / of_nat d"
    by (intro frac_le) simp_all
  moreover have "(2::rat) powi (e0 - 1) = 2 ^ (bit_length n - 1) / 2 ^ bit_length d"
  proof -
    have "e0 - 1 = int (bit_length n - 1) - int (bit_length d)" using bn by (simp add: e0_def)
    then show ?thesis by (simp add: power_int_diff)
  qed
  ultimately show ?thesis using False by (simp add: e_def)
qed

lemma nearest_double_error:
  assumes d: "0 < d"
  shows "\<bar>value_of (nearest_double n d) - of_nat n / of_nat d\<bar>
           \<le> (of_nat n / of_nat d) / 2 ^ 53"
proof (cases "n = 0")
  case True
  then show ?thesis by (simp add: nearest_double_def)
next
  case False
  then have n: "0 < n" by simp
  define e0 where "e0 = int (bit_length n) - int (bit_length d)"
  define e where "e = (if shifted d e0 \<le> shifted n (- e0) then e0 else e0 - 1)"
  define k where "k = e - 52"
  define q where "q = nearest_quotient (shifted n (- k)) (shifted d k)"
  have nd: "nearest_double n d = Double q k"
    using False by (simp add: nearest_double_def Let_def q_def k_def e_def e0_def)
  have le: "(2::rat) powi e \<le> of_nat n / of_nat d"
    unfolding e_def e0_def by (rule exponent_below [OF n d])
  have pk: "(0::rat) < 2 powi k" by simp
  from nearest_quotient_error [where n = "shifted n (- k)" and d = "shifted d k",
      OF shifted_pos [OF d]]
  have "\<bar>of_nat q - (of_nat n / of_nat d * 2 powi (- k) :: rat)\<bar> \<le> 1 / 2"
    by (simp only: q_def shifted_ratio [OF d])
  then have m: "\<bar>of_nat q - (of_nat n / of_nat d * 2 powi (- k) :: rat)\<bar> * 2 powi k
              \<le> 1 / 2 * 2 powi k"
    using pk by (intro mult_right_mono) simp_all
  have eq: "\<bar>of_nat q - (of_nat n / of_nat d * 2 powi (- k) :: rat)\<bar> * 2 powi k
              = \<bar>of_nat q * 2 powi k - of_nat n / of_nat d\<bar>"
  proof -
    have "\<bar>of_nat q - (of_nat n / of_nat d * 2 powi (- k) :: rat)\<bar> * 2 powi k
            = \<bar>(of_nat q - (of_nat n / of_nat d * 2 powi (- k) :: rat)) * 2 powi k\<bar>"
      using pk by (simp add: abs_mult)
    also have "(of_nat q - (of_nat n / of_nat d * 2 powi (- k) :: rat)) * 2 powi k
            = of_nat q * 2 powi k - of_nat n / of_nat d * 2 powi (- k) * 2 powi k"
      by (simp only: left_diff_distrib)
    finally show ?thesis by (simp only: powi_cancel)
  qed
  from m have err: "\<bar>of_nat q * 2 powi k - (of_nat n / of_nat d :: rat)\<bar> \<le> 1 / 2 * 2 powi k"
    unfolding eq .
  have "(2::rat) powi k = 2 powi e / 2 ^ 52"
    by (simp add: k_def power_int_diff)
  with le have "(2::rat) powi k \<le> (of_nat n / of_nat d) / 2 ^ 52"
    by (simp add: field_simps)
  then have "1 / 2 * (2::rat) powi k \<le> (of_nat n / of_nat d) / 2 ^ 53"
    by simp
  with err show ?thesis unfolding nd by simp
qed


lemma value_of_nonneg: "0 \<le> value_of x"
  by (cases x) simp

lemma true_div_error:
  assumes "0 < b"
  shows "\<bar>value_of (true_div a b) - of_nat a / of_nat b\<bar> \<le> (of_nat a / of_nat b) / 2 ^ 53"
  unfolding true_div_def by (rule nearest_double_error [OF assms])

lemma shifted_value:
  "(of_nat (shifted n k) / of_nat (shifted 1 (- k)) :: rat) = of_nat n * 2 powi k"
  using shifted_ratio [of 1 n "- k"] by simp

lemma times_int_error:
  "\<bar>value_of (times_int x c) - value_of x * of_nat c\<bar> \<le> value_of x * of_nat c / 2 ^ 53"
proof (cases x)
  case (Double m k)
  have v: "(of_nat (shifted (m * c) k) / of_nat (shifted 1 (- k)) :: rat)
             = value_of x * of_nat c"
    unfolding shifted_value Double by simp
  have "0 < shifted 1 (- k)" by (rule shifted_pos) simp
  from nearest_double_error [OF this, of "shifted (m * c) k"]
  show ?thesis unfolding v by (simp add: Double)
qed

lemma py_round2_error:
  "\<exists>y::nat. \<bar>of_nat y - value_of x * 100\<bar> \<le> (1 / 2 :: rat)
     \<and> \<bar>value_of (py_round2 x) - of_nat y / 100\<bar> \<le> (of_nat y / 100) / 2 ^ 53"
proof (cases x)
  case (Double m k)
  define y where "y = nearest_quotient (shifted (m * 100) k) (shifted 1 (- k))"
  have v: "(of_nat (shifted (m * 100) k) / of_nat (shifted 1 (- k)) :: rat)
             = value_of x * 100"
    unfolding shifted_value Double by simp
  have "0 < shifted 1 (- k)" by (rule shifted_pos) simp
  from nearest_quotient_error [OF this, of "shifted (m * 100) k"]
  have a: "\<bar>of_nat y - value_of x * 100\<bar> \<le> (1 / 2 :: rat)"
    unfolding v y_def .
  have "(0::nat) < 100" by simp
  from nearest_double_error [OF this, of y]
  have b: "\<bar>value_of (py_round2 x) - of_nat y / 100\<bar> \<le> (of_nat y / 100) / 2 ^ 53"
    by (simp add: Double y_def)
  from a b show ?thesis by blast
qed

lemma rate_error:
  assumes "0 < whole"
  shows "\<bar>rate part whole - of_nat part / of_nat whole * 100\<bar>
           \<le> rate_slack (of_nat part / of_nat whole)"
proof -
  define t :: rat where "t = of_nat part / of_nat whole"
  define v1 where "v1 = value_of (true_div part whole)"
  define v2 where "v2 = value_of (times_int (true_div part whole) 100)"
  define v3 where "v3 = value_of (py_round2 (times_int (true_div part whole) 100))"
  have t0: "0 \<le> t" by (simp add: t_def)
  have e1: "\<bar>v1 - t\<bar> \<le> t / 9007199254740992"
    using true_div_error [OF assms, of part] by (simp add: v1_def t_def)
  have e2: "\<bar>v2 - v1 * 100\<bar> \<le> v1 * 100 / 9007199254740992"
    using times_int_error [of "true_div part whole" 100] by (simp add: v1_def v2_def)
  from py_round2_error [of "times_int (true_div part whole) 100"]
  obtain y :: nat where e3: "\<bar>of_nat y - v2 * 100\<bar> \<le> (1 / 2 :: rat)"
    and e4: "\<bar>v3 - of_nat y / 100\<bar> \<le> (of_nat y / 100) / 9007199254740992"
    unfolding v2_def v3_def by auto
  define z :: rat where "z = of_nat y"
  note e3 = e3 [folded z_def] and e4 = e4 [folded z_def]
  have s1: "v1 \<le> t * 2" using t0 e1 by linarith
  have v10: "0 \<le> v1" unfolding v1_def by (rule value_of_nonneg)
  have s2: "v2 \<le> t * 400" using v10 s1 e2 by linarith
  have s3: "z / 100 \<le> t * 400 + 1 / 200" using s2 e3 by linarith
  have d1: "t / 9007199254740992 * 100 = t * 100 / 9007199254740992" by simp
  have b4: "z / 100 / 9007199254740992 \<le> (t * 400 + 1 / 200) / 9007199254740992"
    using s3 by (rule divide_right_mono) simp
  have b2: "v1 * 100 / 9007199254740992 \<le> t * 200 / 9007199254740992"
    using s1 by (intro divide_right_mono) simp_all
  have a4: "\<bar>v3 - z / 100\<bar> \<le> (t * 400 + 1 / 200) / 9007199254740992"
    using e4 b4 by (rule order_trans)
  have a2: "\<bar>v2 - v1 * 100\<bar> \<le> t * 200 / 9007199254740992"
    using e2 b2 by (rule order_trans)
  define w :: rat where "w = t / 9007199254740992"
  have w4: "(t * 400 + 1 / 200) / 9007199254740992 = w * 400 + 1 / 1801439850948198400"
    by (simp add: w_def add_divide_distrib)
  have w2: "t * 200 / 9007199254740992 = w * 200" by (simp add: w_def)
  have wg: "(t * 700 + 1) / 9007199254740992 = w * 700 + 1 / 9007199254740992"
    by (simp add: w_def add_divide_distrib)
  have w0: "0 \<le> w" using t0 by (simp add: w_def)
  have "\<bar>v3 - t * 100\<bar> \<le> 1 / 200 + (t * 700 + 1) / 9007199254740992"
    unfolding wg using a4 a2 e1 e3 w0 unfolding w4 w2 w_def [symmetric] by linarith
  then show ?thesis
    using assms by (simp add: rate_def v3_def t_def rate_slack_def)
qed

subsection \<open>The statistics block\<close>

text \<open>
  C5 (amended). When the statistics block succeeds on a store, the recipients are the
  entries, the opens and clicks are the entries whose flag is present and true, and each
  rate is \<^verbatim>\<open>round(part / whole * 100, 2)\<close> as binary floating point computes it, and 0
  when its denominator is 0. A rate with a positive denominator differs from the
  unrounded percentage \<open>part / whole * 100\<close> by at most 0.005 and the rounding errors
  of the floating-point operations, \<open>(part / whole * 700 + 1) / 2 ^ 53\<close>. On the empty
  store the block succeeds and all counts and rates are 0.
\<close>

theorem stats_counts_and_rounded_rates:
  assumes "compute_stats cid (JDict d) = Inr s"
  shows "total_recipients s = length d
       \<and> total_opens s = length (filter (\<lambda>j. flag_set ''opened'' (Some j)) (map snd d))
       \<and> total_clicks s = length (filter (\<lambda>j. flag_set ''clicked'' (Some j)) (map snd d))
       \<and> open_rate s = (if length d = 0 then 0
            else value_of (py_round2 (times_int (true_div (total_opens s) (length d)) 100)))
       \<and> click_rate s = (if length d = 0 then 0
            else value_of (py_round2 (times_int (true_div (total_clicks s) (length d)) 100)))
       \<and> click_to_open_rate s = (if total_opens s = 0 then 0
            else value_of (py_round2
                   (times_int (true_div (total_clicks s) (total_opens s)) 100)))
       \<and> (0 < length d \<longrightarrow>
            \<bar>open_rate s - of_nat (total_opens s) / of_nat (length d) * 100\<bar>
              \<le> rate_slack (of_nat (total_opens s) / of_nat (length d)))
       \<and> (0 < length d \<longrightarrow>
            \<bar>click_rate s - of_nat (total_clicks s) / of_nat (length d) * 100\<bar>
              \<le> rate_slack (of_nat (total_clicks s) / of_nat (length d)))
       \<and> (0 < total_opens s \<longrightarrow>
            \<bar>click_to_open_rate s - of_nat (total_clicks s) / of_nat (total_opens s) * 100\<bar>
              \<le> rate_slack (of_nat (total_clicks s) / of_nat (total_opens s)))
       \<and> compute_stats cid (JDict [])
           = Inr \<lparr>campaign_id = cid, total_recipients = 0, total_opens = 0, total_clicks = 0,
                  open_rate = 0, click_rate = 0, click_to_open_rate = 0\<rparr>"
proof -
  from assms obtain opens where o: "count_flag ''opened'' (map snd d) = Inr opens"
    by (cases "count_flag ''opened'' (map snd d)") (simp_all add: compute_stats_def)
  from assms o obtain clicks where c: "count_flag ''clicked'' (map snd d) = Inr clicks"
    by (cases "count_flag ''clicked'' (map snd d)") (simp_all add: compute_stats_def)
  from assms o c have s: "s = \<lparr>campaign_id = cid, total_recipients = length d,
       total_opens = opens, total_clicks = clicks, open_rate = rate opens (length d),
       click_rate = rate clicks (length d), click_to_open_rate = rate clicks opens\<rparr>"
    by (simp add: compute_stats_def)
  note co = count_flag_Inr [OF o] and cc = count_flag_Inr [OF c]
  have r: "rate part whole = (if whole = 0 then 0
             else value_of (py_round2 (times_int (true_div part whole) 100)))" for part whole
    by (simp add: rate_def)
  have z: "compute_stats cid (JDict [])
           = Inr \<lparr>campaign_id = cid, total_recipients = 0, total_opens = 0, total_clicks = 0,
                  open_rate = 0, click_rate = 0, click_to_open_rate = 0\<rparr>"
    by (simp add: compute_stats_def rate_def)
  have f: "total_recipients s = length d" "total_opens s = opens" "total_clicks s = clicks"
    "open_rate s = rate opens (length d)" "click_rate s = rate clicks (length d)"
    "click_to_open_rate s = rate clicks opens"
    by (simp_all add: s)
  have b: "0 < whole \<longrightarrow>
             \<bar>rate part whole - of_nat part / of_nat whole * 100\<bar>
               \<le> rate_slack (of_nat part / of_nat whole)" for part whole
    using rate_error [of whole part] by blast
  have "total_recipients s = length d"
    "total_opens s = length (filter (\<lambda>j. flag_set ''opened'' (Some j)) (map snd d))"
    "total_clicks s = length (filter (\<lambda>j. flag_set ''clicked'' (Some j)) (map snd d))"
    using f co cc by simp_all
  moreover have "open_rate s = (if length d = 0 then 0
            else value_of (py_round2 (times_int (true_div (total_opens s) (length d)) 100)))"
    "click_rate s = (if length d = 0 then 0
            else value_of (py_round2 (times_int (true_div (total_clicks s) (length d)) 100)))"
    "click_to_open_rate s = (if total_opens s = 0 then 0
            else value_of (py_round2
                   (times_int (true_div (total_clicks s) (total_opens s)) 100)))"
    unfolding f by (rule r)+
  moreover have "0 < length d \<longrightarrow>
            \<bar>open_rate s - of_nat (total_opens s) / of_nat (length d) * 100\<bar>
              \<le> rate_slack (of_nat (total_opens s) / of_nat (length d))"
    "0 < length d \<longrightarrow>
            \<bar>click_rate s - of_nat (total_clicks s) / of_nat (length d) * 100\<bar>
              \<le> rate_slack (of_nat (total_clicks s) / of_nat (length d))"
    "0 < total_opens s \<longrightarrow>
            \<bar>click_to_open_rate s - of_nat (total_clicks s) / of_nat (total_opens s) * 100\<bar>
              \<le> rate_slack (of_nat (total_clicks s) / of_nat (total_opens s))"
    unfolding f by (rule b)+
  ultimately show ?thesis
    using z by (simp only: simp_thms)
qed

text \<open>
  The rates of one open among three recipients, of one among one, and of 23 among 160:
  the floats that Python prints as 33.33, 100.0 and 14.37.
\<close>

lemma rate_eval:
  "rate (Suc 0) 3 = 2345390243441541 / 70368744177664"
  "rate (Suc 0) (Suc 0) = 100"
  "rate 23 160 = 8089590830664253 / 562949953421312"
  by (simp_all add: rate_def true_div_def nearest_double_def bit_length.simps shifted_def
      nearest_quotient_def Let_def power_int_minus)

lemma rate_eval_rounded:
  "value_of (py_round2 (times_int (true_div (Suc 0) 3) 100)) = 2345390243441541 / 70368744177664"
  using rate_eval(1) by (simp add: rate_def)

lemma three_counts:
  "count_flag ''opened'' (map snd three_entries) = Inr 1"
  "count_flag ''clicked'' (map snd three_entries) = Inr 0"
  by (simp_all add: three_entries_def get_flag_def)

lemma three_entries_stats:
  "compute_stats ''20250101000000'' (JDict three_entries)
     = Inr \<lparr>campaign_id = ''20250101000000'', total_recipients = 3, total_opens = 1,
            total_clicks = 0, open_rate = 2345390243441541 / 70368744177664, click_rate = 0,
            click_to_open_rate = 0\<rparr>"
proof -
  have l: "length three_entries = 3" by (simp add: three_entries_def)
  show ?thesis
    by (simp add: compute_stats_def three_counts l rate_eval rate_zero_part)
qed

theorem stats_counts_and_rounded_rates_witness:
  "compute_stats ''20250101000000'' (JDict three_entries)
     = Inr \<lparr>campaign_id = ''20250101000000'', total_recipients = 3, total_opens = 1,
            total_clicks = 0, open_rate = 2345390243441541 / 70368744177664, click_rate = 0,
            click_to_open_rate = 0\<rparr>
   \<and> length three_entries = 3
   \<and> length (filter (\<lambda>j. flag_set ''opened'' (Some j)) (map snd three_entries)) = 1
   \<and> value_of (py_round2 (times_int (true_div 1 3) 100))
       = 2345390243441541 / 70368744177664
   \<and> \<bar>2345390243441541 / 70368744177664 - 1 / 3 * 100\<bar> \<le> rate_slack (1 / 3)"
proof -
  have l: "length three_entries = 3" by (simp add: three_entries_def)
  note t = stats_counts_and_rounded_rates [OF three_entries_stats]
  from t have "0 < length three_entries \<longrightarrow>
      \<bar>open_rate \<lparr>campaign_id = ''20250101000000'', total_recipients = 3, total_opens = 1,
            total_clicks = 0, open_rate = 2345390243441541 / 70368744177664, click_rate = 0,
            click_to_open_rate = 0\<rparr>
        - of_nat (total_opens \<lparr>campaign_id = ''20250101000000'', total_recipients = 3,
            total_opens = 1, total_clicks = 0,
            open_rate = 2345390243441541 / 70368744177664, click_rate = 0,
            click_to_open_rate = 0\<rparr>) / of_nat (length three_entries) * 100\<bar>
      \<le> rate_slack (of_nat (total_opens \<lparr>campaign_id = ''20250101000000'',
            total_recipients = 3, total_opens = 1, total_clicks = 0,
            open_rate = 2345390243441541 / 70368744177664, click_rate = 0,
            click_to_open_rate = 0\<rparr>) / of_nat (length three_entries))"
    by blast
  then have b: "\<bar>2345390243441541 / 70368744177664 - 1 / 3 * 100\<bar> \<le> rate_slack (1 / 3)"
    by (simp add: l)
  from t [THEN conjunct2, THEN conjunct1, symmetric]
  have o: "length (filter (\<lambda>j. flag_set ''opened'' (Some j)) (map snd three_entries)) = 1"
    by simp
  have r: "value_of (py_round2 (times_int (true_div 1 3) 100))
             = 2345390243441541 / 70368744177664"
    using rate_eval_rounded by simp
  from three_entries_stats l o r b show ?thesis by (simp only: simp_thms)
qed

text \<open>
  The claim as stated gives the open rate as opens / recipients * 100. With one of three
  recipients opened the code returns the float 33.33, which is not 100/3.
\<close>

theorem open_rate_rounded_counterexample:
  "compute_stats ''20250101000000'' (JDict three_entries)
     = Inr \<lparr>campaign_id = ''20250101000000'', total_recipients = 3, total_opens = 1,
            total_clicks = 0, open_rate = 2345390243441541 / 70368744177664, click_rate = 0,
            click_to_open_rate = 0\<rparr>
   \<and> (2345390243441541 / 70368744177664 :: rat) \<noteq> 1 / 3 * 100"
proof -
  have l: "length three_entries = 3" by (simp add: three_entries_def)
  have "compute_stats ''20250101000000'' (JDict three_entries)
     = Inr \<lparr>campaign_id = ''20250101000000'', total_recipients = 3, total_opens = 1,
            total_clicks = 0, open_rate = 2345390243441541 / 70368744177664, click_rate = 0,
            click_to_open_rate = 0\<rparr>"
    by (simp add: compute_stats_def three_counts l rate_eval rate_zero_part)
  then show ?thesis by simp
qed

text \<open>
  C10. On every store whose entries are objects, whatever keys they have, the statistics
  endpoint answers 200: every entry counts as a recipient, and an entry counts as opened
  (clicked) only when it has the key with a true value, so the opens (clicks) never
  exceed the number of entries that have the key. The witness is the store left by one
  pixel request on an empty data directory: its entry has no \<^verbatim>\<open>clicked\<close> key.
\<close>

theorem stats_total_on_shell_entries:
  assumes v: "is_valid_campaign_id cid"
    and f: "files st (data_file_of cid) = Some (Parsed (JDict d))"
    and e: "list_all is_dict (map snd d)"
  shows "\<exists>s. campaign_stats cid st = (JsonStats s, st)
           \<and> total_recipients s = length d
           \<and> total_opens s = length (filter (\<lambda>j. flag_set ''opened'' (Some j)) (map snd d))
           \<and> total_clicks s = length (filter (\<lambda>j. flag_set ''clicked'' (Some j)) (map snd d))
           \<and> total_opens s \<le> length (filter (has_key ''opened'') (map snd d))
           \<and> total_clicks s \<le> length (filter (has_key ''clicked'') (map snd d))"
proof -
  let ?o = "length (filter (\<lambda>j. flag_set ''opened'' (Some j)) (map snd d))"
  let ?c = "length (filter (\<lambda>j. flag_set ''clicked'' (Some j)) (map snd d))"
  let ?s = "\<lparr>campaign_id = cid, total_recipients = length d, total_opens = ?o,
             total_clicks = ?c, open_rate = rate ?o (length d),
             click_rate = rate ?c (length d), click_to_open_rate = rate ?c ?o\<rparr>"
  have c: "compute_stats cid (JDict d) = Inr ?s"
    by (simp add: compute_stats_def count_flag_dicts [OF e])
  have "campaign_stats cid st = (JsonStats ?s, st)"
    using v f by (simp add: campaign_stats_def Let_def load_file_def c)
  moreover have "?o \<le> length (filter (has_key ''opened'') (map snd d))"
    "?c \<le> length (filter (has_key ''clicked'') (map snd d))"
    by (rule filter_flag_le)+
  ultimately show ?thesis
    by (intro exI [of _ ?s]) simp
qed

lemma valid_example_campaign: "is_valid_campaign_id ''20250101000000''"
  by (simp add: is_valid_campaign_id_def alnum_def)

theorem stats_total_on_shell_entries_witness:
  "is_valid_campaign_id ''20250101000000''
   \<and> files (snd (track_open ''20250101000000_7'' (client ''2025-01-02T09:00:00'') fresh_server))
        (data_file_of ''20250101000000'')
       = Some (Parsed (JDict [(''20250101000000_7'',
           merged ''opened'' ''2025-01-02T09:00:00''
             (event_data ''opened'' ''2025-01-02T09:00:00'' (Some ''203.0.113.9'')
                (Some ''Mozilla/5.0'') None)
             [] [(''first_seen'', JStr ''2025-01-02T09:00:00''), (''events'', JList [])])]))
   \<and> \<not> has_key ''clicked'' (merged ''opened'' ''2025-01-02T09:00:00''
             (event_data ''opened'' ''2025-01-02T09:00:00'' (Some ''203.0.113.9'')
                (Some ''Mozilla/5.0'') None)
             [] [(''first_seen'', JStr ''2025-01-02T09:00:00''), (''events'', JList [])])
   \<and> (\<exists>s. campaign_stats ''20250101000000''
              (snd (track_open ''20250101000000_7'' (client ''2025-01-02T09:00:00'') fresh_server))
            = (JsonStats s,
               snd (track_open ''20250101000000_7'' (client ''2025-01-02T09:00:00'') fresh_server))
          \<and> total_recipients s = 1 \<and> total_opens s = 1 \<and> total_clicks s = 0)"
proof -
  let ?tid = "''20250101000000_7''"
  let ?t = "''2025-01-02T09:00:00''"
  let ?m = "merged ''opened'' ?t
             (event_data ''opened'' ?t (Some ''203.0.113.9'') (Some ''Mozilla/5.0'') None)
             [] [(''first_seen'', JStr ?t), (''events'', JList [])]"
  let ?st = "snd (track_open ?tid (client ?t) fresh_server)"
  have h1: "is_valid_tracking_id ?tid"
    by (simp add: is_valid_tracking_id_def VALID_TRACKING_ID_PATTERN_def alnum_def underscore_def)
  have p: "parse_campaign_id ?tid = Inr ''20250101000000''"
    by (simp add: parse_campaign_id_def)
  have fr: "files (logged lv msg fresh_server) (data_file_of ''20250101000000'') = None" for lv msg
    by (simp add: fresh_server_def)
  have wr: "disk (logged lv msg fresh_server) (data_file_of ''20250101000000'') = Written"
    for lv msg
    by (simp add: fresh_server_def writes_through_def)
  have f: "files ?st (data_file_of ''20250101000000'') = Some (Parsed (JDict [(?tid, ?m)]))"
    unfolding files_track_open [OF h1]
    by (simp add: update_files_new_file [OF p fr wr] client_def header_or_unknown_def)
  have d: "list_all is_dict (map snd [(?tid, ?m)])"
    by (simp add: is_dict_def merged_def)
  have k: "\<not> has_key ''clicked'' ?m"
    by (simp add: has_key_def merged_def update_conv')
  have o: "flag_set ''opened'' (Some ?m)"
    by (simp add: flag_set_def merged_def update_conv')
  have c: "\<not> flag_set ''clicked'' (Some ?m)"
    using k flag_set_has_key by blast
  from stats_total_on_shell_entries [OF valid_example_campaign f d]
  obtain s where s: "campaign_stats ''20250101000000'' ?st = (JsonStats s, ?st)"
    "total_recipients s = 1" "total_opens s = 1" "total_clicks s = 0"
    by (auto simp: o c)
  have "\<exists>s. campaign_stats ''20250101000000'' ?st = (JsonStats s, ?st)
          \<and> total_recipients s = 1 \<and> total_opens s = 1 \<and> total_clicks s = 0"
    by (rule exI [of _ s]) (simp only: s simp_thms)
  with valid_example_campaign f k show ?thesis by (simp only: simp_thms)
qed

section \<open>Properties of the send loop\<close>










lemma five_recipients_run:
  "run_campaign (settings 2 0 0) no_entropy
     [addressed, addressed, addressed, addressed, addressed]
   = Inr \<lparr>successful_sends = 5, failed_sends = 0,
          pauses = [Delay 0 0, Delay 1 0, BatchBreak 1 0, Delay 2 0, Delay 3 0, BatchBreak 3 0],
          draws = 6\<rparr>"
  by (simp add: run_campaign_def settings_def addressed_def no_entropy_def
      sleep_after_def randint_def time_sleep_def send_one_def)

text \<open>A row on which \<^verbatim>\<open>_prepare_email\<close> raises ends the run: no later row is sent to.\<close>

lemma blank_contact_ends_run:
  "run_campaign (settings 2 0 0) no_entropy [addressed, blank_contact, addressed]
     = Inl AttributeError"
  by (simp add: run_campaign_def settings_def addressed_def blank_contact_def no_entropy_def
      sleep_after_def randint_def time_sleep_def send_one_def)

end
